theory Spec2Isabelle
  imports Main "HOL-Library.Log_Nat" "HOL-Library.Multiset"
begin

section \<open>Low-stock alerts: a shallow embedding of \<open>part3_api_implementation.py\<close>\<close>

subsection \<open>Python values: exceptions, integers, binary64 floats, datetimes\<close>

text \<open>
  The exceptions the arithmetic of \<open>low_stock_alerts\<close> can raise. An uncaught exception
  leaves the view function; it is the \<open>Inl\<close> branch of every result below.
\<close>

datatype py_error = ZeroDivisionError | OverflowError

text \<open>
  A finite Python \<open>float\<close> (IEEE binary64) is the number \<open>m * 2 ^ e\<close>, kept as the pair of
  integers. The operations below produce \<open>2 ^ 52 \<le> \<bar>m\<bar> \<le> 2 ^ 53\<close> for normal numbers and
  \<open>e = - 1074\<close> for subnormal ones; zero is \<open>F64 0 0\<close>.
\<close>

datatype float64 = F64 (mantissa: int) (exponent: int)

definition valof :: "float64 \<Rightarrow> rat" where
  "valof f = of_int (mantissa f) * 2 powi (exponent f)"

text \<open>\<open>floor_log2 p q\<close> is the integer \<open>k\<close> with \<open>2 ^ k \<le> p / q < 2 ^ (k + 1)\<close>, for positive
  \<open>p\<close> and \<open>q\<close>.\<close>

definition floor_log2 :: "int \<Rightarrow> int \<Rightarrow> int" where
  "floor_log2 p q =
     (let k = bitlen p - bitlen q
      in if (if 0 \<le> k then q * 2 ^ nat k \<le> p else q \<le> p * 2 ^ nat (- k)) then k else k - 1)"

text \<open>The integer nearest to \<open>a / b\<close> (for \<open>b > 0\<close>), ties to the even one.\<close>

definition round_half_even_div :: "int \<Rightarrow> int \<Rightarrow> int" where
  "round_half_even_div a b =
     (let f = a div b; r = a mod b
      in if 2 * r < b then f else if b < 2 * r then f + 1 else if even f then f else f + 1)"

text \<open>
  The binary64 value nearest to the exact quotient \<open>p / q\<close> (\<open>q > 0\<close>), ties to even: 53
  significant bits, the least exponent \<open>- 1074\<close>. A rounded value of magnitude \<open>2 ^ 1024\<close> or
  more is not a finite float.
\<close>

definition float_of_quotient :: "int \<Rightarrow> int \<Rightarrow> py_error + float64" where
  "float_of_quotient p q =
     (if p = 0 then Inr (F64 0 0)
      else
        let k = floor_log2 \<bar>p\<bar> q;
            e = max (k - 52) (- 1074);
            m = (if 0 \<le> e then round_half_even_div p (q * 2 ^ nat e)
                 else round_half_even_div (p * 2 ^ nat (- e)) q)
        in if 0 \<le> e \<and> 2 ^ 1024 \<le> \<bar>m\<bar> * 2 ^ nat e then Inl OverflowError
           else Inr (F64 m e))"

text \<open>\<open>a / b\<close> on two Python ints: true division, correctly rounded.\<close>

definition int_truediv :: "int \<Rightarrow> int \<Rightarrow> py_error + float64" where
  "int_truediv a b =
     (if b = 0 then Inl ZeroDivisionError else float_of_quotient (a * sgn b) \<bar>b\<bar>)"

text \<open>The conversion of an int operand to float.\<close>

definition float_of_int :: "int \<Rightarrow> py_error + float64" where
  "float_of_int n = float_of_quotient n 1"

text \<open>
  \<open>x / y\<close> on two floats. An infinite quotient is reported as \<open>OverflowError\<close> here: the only
  use of the quotient is \<open>math.ceil\<close>, which raises that exception on an infinity.
\<close>

definition float_truediv :: "float64 \<Rightarrow> float64 \<Rightarrow> py_error + float64" where
  "float_truediv x y =
     (if mantissa y = 0 then Inl ZeroDivisionError
      else
        let d = exponent x - exponent y
        in float_of_quotient (sgn (mantissa y) * mantissa x * 2 ^ nat d)
             (\<bar>mantissa y\<bar> * 2 ^ nat (- d)))"

text \<open>\<open>n / y\<close> with an int on the left and a float on the right.\<close>

definition int_float_truediv :: "int \<Rightarrow> float64 \<Rightarrow> py_error + float64" where
  "int_float_truediv n y =
     (case float_of_int n of Inl err \<Rightarrow> Inl err | Inr x \<Rightarrow> float_truediv x y)"

definition float_gt_zero :: "float64 \<Rightarrow> bool" where
  "float_gt_zero x = (0 < mantissa x)"

text \<open>\<open>math.ceil\<close> on a finite float: an exact int.\<close>

definition math_ceil :: "float64 \<Rightarrow> int" where
  "math_ceil x =
     (if 0 \<le> exponent x then mantissa x * 2 ^ nat (exponent x)
      else - ((- mantissa x) div 2 ^ nat (- exponent x)))"

text \<open>
  A naive \<open>datetime\<close> is its number of microseconds since 0001-01-01T00:00:00; the last one is
  9999-12-31T23:59:59.999999. \<open>timedelta(days=n)\<close> accepts at most 999999999 days either way,
  and a difference that leaves the range of \<open>datetime\<close> raises \<open>OverflowError\<close>.
\<close>

type_synonym datetime = int

definition DATETIME_END :: int where
  "DATETIME_END = 3652059 * 86400000000"

definition timedelta_days :: "int \<Rightarrow> py_error + int" where
  "timedelta_days n = (if 999999999 < \<bar>n\<bar> then Inl OverflowError else Inr (n * 86400000000))"

definition datetime_sub :: "datetime \<Rightarrow> int \<Rightarrow> py_error + datetime" where
  "datetime_sub t delta =
     (let r = t - delta in if r < 0 \<or> DATETIME_END \<le> r then Inl OverflowError else Inr r)"

definition days_before :: "datetime \<Rightarrow> int \<Rightarrow> py_error + datetime" where
  "days_before now n =
     (case timedelta_days n of Inl err \<Rightarrow> Inl err | Inr delta \<Rightarrow> datetime_sub now delta)"

subsection \<open>The store\<close>

text \<open>
  Modelled from the spec: the ORM models \<open>Company\<close>, \<open>Warehouse\<close>, \<open>Inventory\<close>, \<open>Product\<close>,
  \<open>Order\<close>, \<open>OrderItem\<close>, \<open>Supplier\<close> and \<open>ProductSupplier\<close> are imported from the
  application context and are not part of the source file. Each table is a list of rows, in
  the order in which the store returns them; the columns are the ones the view function
  reads, with integer identifiers and quantities, as the data model of the specification
  has them.
\<close>

record company =
  c_id :: int

record warehouse =
  w_id :: int
  w_company_id :: int
  w_name :: string

record product =
  p_id :: int
  p_name :: string
  p_sku :: string

record inventory =
  i_product_id :: int
  i_warehouse_id :: int
  i_quantity :: int
  i_threshold :: int

record order =
  o_id :: int
  o_company_id :: int

record order_item =
  oi_order_id :: int
  oi_product_id :: int
  oi_quantity :: int
  oi_created_at :: datetime

record supplier =
  s_id :: int
  s_name :: string
  s_contact_email :: string

record product_supplier =
  ps_product_id :: int
  ps_supplier_id :: int
  ps_is_primary :: bool

record db =
  companies :: "company list"
  warehouses :: "warehouse list"
  products :: "product list"
  inventories :: "inventory list"
  orders :: "order list"
  order_items :: "order_item list"
  suppliers :: "supplier list"
  product_suppliers :: "product_supplier list"

text \<open>The two module-level window lengths, in days.\<close>

record config =
  SALES_AVG_WINDOW_DAYS :: int
  SALES_ACTIVITY_WINDOW_DAYS :: int

definition default_config :: config where
  "default_config = \<lparr>SALES_AVG_WINDOW_DAYS = 30, SALES_ACTIVITY_WINDOW_DAYS = 60\<rparr>"

subsection \<open>The response\<close>

record supplier_entry =
  se_id :: int
  se_name :: string
  se_contact_email :: string
  se_is_primary :: bool

record supplier_info =
  si_id :: int
  si_name :: string
  si_contact_email :: string

record alert =
  product_id :: int
  product_name :: string
  sku :: string
  warehouse_id :: int
  warehouse_name :: string
  current_stock :: int
  threshold :: int
  days_until_stockout :: "int option"
  supplier :: "supplier_info option"

text \<open>The JSON body handed to \<open>jsonify\<close>; a response is the body with its HTTP status.\<close>

datatype body = ErrorBody string | AlertsBody "alert list" int

type_synonym response = "body \<times> int"

subsection \<open>The queries\<close>

text \<open>\<open>Company.query.get(company_id)\<close>\<close>

definition company_get :: "db \<Rightarrow> int \<Rightarrow> company option" where
  "company_get d company_id = find (\<lambda>c. c_id c = company_id) (companies d)"

text \<open>Step 1: the inventories of the company's warehouses with \<open>quantity <= threshold\<close>,
  joined with their warehouse and their product.\<close>

definition candidate_rows :: "db \<Rightarrow> int \<Rightarrow> (inventory \<times> product \<times> warehouse) list" where
  "candidate_rows d company_id =
     [(ivt, prd, wh).
        ivt \<leftarrow> inventories d,
        wh \<leftarrow> warehouses d, i_warehouse_id ivt = w_id wh,
        prd \<leftarrow> products d, i_product_id ivt = p_id prd,
        w_company_id wh = company_id,
        i_quantity ivt \<le> i_threshold ivt]"

text \<open>\<open>list({prod.id for _, prod, _ in candidate_rows})\<close>; the list is only used for
  membership.\<close>

definition product_ids :: "(inventory \<times> product \<times> warehouse) list \<Rightarrow> int list" where
  "product_ids rows = remdups (map (\<lambda>(ivt, prd, wh). p_id prd) rows)"

text \<open>Steps 2 and 3 run the same grouped query with two different lower bounds on
  \<open>OrderItem.created_at\<close>: one row \<open>(product_id, qty)\<close> for each product with a matching
  order item.\<close>

definition sales_rows :: "db \<Rightarrow> int \<Rightarrow> int list \<Rightarrow> datetime \<Rightarrow> order_item list" where
  "sales_rows d company_id pids since =
     [oi.
        oi \<leftarrow> order_items d,
        odr \<leftarrow> orders d, oi_order_id oi = o_id odr,
        o_company_id odr = company_id,
        oi_product_id oi \<in> set pids,
        since \<le> oi_created_at oi]"

definition sales_since :: "db \<Rightarrow> int \<Rightarrow> int list \<Rightarrow> datetime \<Rightarrow> (int \<times> int) list" where
  "sales_since d company_id pids since =
     (let rows = sales_rows d company_id pids since
      in map (\<lambda>p. (p, sum_list (map oi_quantity (filter (\<lambda>oi. oi_product_id oi = p) rows))))
           (remdups (map oi_product_id rows)))"

definition recent_sales :: "db \<Rightarrow> int \<Rightarrow> int list \<Rightarrow> datetime \<Rightarrow> (int \<times> int) list" where
  "recent_sales d company_id pids activity_since = sales_since d company_id pids activity_since"

definition avg_sales :: "db \<Rightarrow> int \<Rightarrow> int list \<Rightarrow> datetime \<Rightarrow> (int \<times> int) list" where
  "avg_sales d company_id pids avg_since = sales_since d company_id pids avg_since"

text \<open>\<open>{r.product_id: r.qty for r in rows}\<close>: a later row replaces an earlier one.\<close>

definition dict_of :: "('k \<times> 'v) list \<Rightarrow> ('k \<rightharpoonup> 'v)" where
  "dict_of rows = foldl (\<lambda>m (k, v). m(k \<mapsto> v)) Map.empty rows"

text \<open>\<open>m.get(k, 0)\<close>\<close>

definition get_or_zero :: "(int \<rightharpoonup> int) \<Rightarrow> int \<Rightarrow> int" where
  "get_or_zero m k = (case m k of None \<Rightarrow> 0 | Some v \<Rightarrow> v)"

text \<open>Step 4: the supplier links of the products, joined with their supplier:
  \<open>(prod_id, sup_id, sup_name, sup_email, is_primary)\<close>.\<close>

type_synonym supplier_row = "int \<times> int \<times> string \<times> string \<times> bool"

definition suppliers_q :: "db \<Rightarrow> int list \<Rightarrow> supplier_row list" where
  "suppliers_q d pids =
     [(ps_product_id ps, s_id s, s_name s, s_contact_email s, ps_is_primary ps).
        ps \<leftarrow> product_suppliers d,
        s \<leftarrow> suppliers d, ps_supplier_id ps = s_id s,
        ps_product_id ps \<in> set pids]"

subsection \<open>The supplier map\<close>

text \<open>One turn of the loop over \<open>suppliers_q\<close>.\<close>

definition supplier_step :: "(int \<rightharpoonup> supplier_entry) \<Rightarrow> supplier_row \<Rightarrow> (int \<rightharpoonup> supplier_entry)" where
  "supplier_step m row =
     (case row of (prod_id, sup_id, sup_name, sup_email, is_primary) \<Rightarrow>
        (case m prod_id of
           None \<Rightarrow>
             m(prod_id \<mapsto> \<lparr>se_id = sup_id, se_name = sup_name, se_contact_email = sup_email,
                           se_is_primary = is_primary\<rparr>)
         | Some entry \<Rightarrow>
             if is_primary \<and> \<not> se_is_primary entry
             then m(prod_id \<mapsto> \<lparr>se_id = sup_id, se_name = sup_name,
                                 se_contact_email = sup_email, se_is_primary = is_primary\<rparr>)
             else m))"

fun supplier_loop :: "(int \<rightharpoonup> supplier_entry) \<Rightarrow> supplier_row list \<Rightarrow> (int \<rightharpoonup> supplier_entry)" where
  "supplier_loop m [] = m"
| "supplier_loop m (row # rows) = supplier_loop (supplier_step m row) rows"

definition supplier_map :: "supplier_row list \<Rightarrow> (int \<rightharpoonup> supplier_entry)" where
  "supplier_map rows = supplier_loop Map.empty rows"

subsection \<open>The projection and the alert loop\<close>

text \<open>\<open>total_sold_in_avg / max(SALES_AVG_WINDOW_DAYS, 1)\<close>\<close>

definition avg_daily_sales :: "config \<Rightarrow> int \<Rightarrow> py_error + float64" where
  "avg_daily_sales cfg total_sold_in_avg =
     int_truediv total_sold_in_avg (max (SALES_AVG_WINDOW_DAYS cfg) 1)"

text \<open>The \<open>if avg_daily_sales > 0\<close> statement: \<open>None\<close> is Python's \<open>None\<close>.\<close>

definition stockout_days :: "config \<Rightarrow> int \<Rightarrow> int \<Rightarrow> py_error + int option" where
  "stockout_days cfg quantity total_sold_in_avg =
     (case avg_daily_sales cfg total_sold_in_avg of
        Inl err \<Rightarrow> Inl err
      | Inr avg \<Rightarrow>
          if float_gt_zero avg
          then (case int_float_truediv quantity avg of
                  Inl err \<Rightarrow> Inl err
                | Inr x \<Rightarrow> Inr (Some (math_ceil x)))
          else Inr None)"

definition supplier_info_of :: "(int \<rightharpoonup> supplier_entry) \<Rightarrow> int \<Rightarrow> supplier_info option" where
  "supplier_info_of smap pid =
     (case smap pid of
        None \<Rightarrow> None
      | Some s \<Rightarrow> Some \<lparr>si_id = se_id s, si_name = se_name s,
                        si_contact_email = se_contact_email s\<rparr>)"

text \<open>The body of the loop over \<open>candidate_rows\<close>: \<open>Inr None\<close> is \<open>continue\<close>,
  \<open>Inr (Some a)\<close> is the alert appended.\<close>

definition alert_of ::
  "config \<Rightarrow> (int \<rightharpoonup> int) \<Rightarrow> (int \<rightharpoonup> int) \<Rightarrow> (int \<rightharpoonup> supplier_entry) \<Rightarrow>
   inventory \<times> product \<times> warehouse \<Rightarrow> py_error + alert option" where
  "alert_of cfg recent_sales_map avg_sales_map smap row =
     (case row of (ivt, prd, wh) \<Rightarrow>
        let pid = p_id prd;
            recent_qty = get_or_zero recent_sales_map pid
        in if recent_qty = 0 then Inr None
           else
             (case stockout_days cfg (i_quantity ivt) (get_or_zero avg_sales_map pid) of
                Inl err \<Rightarrow> Inl err
              | Inr days \<Rightarrow>
                  Inr (Some \<lparr>product_id = pid, product_name = p_name prd, sku = p_sku prd,
                             warehouse_id = w_id wh, warehouse_name = w_name wh,
                             current_stock = i_quantity ivt, threshold = i_threshold ivt,
                             days_until_stockout = days,
                             supplier = supplier_info_of smap pid\<rparr>)))"

fun alerts_loop ::
  "config \<Rightarrow> (int \<rightharpoonup> int) \<Rightarrow> (int \<rightharpoonup> int) \<Rightarrow> (int \<rightharpoonup> supplier_entry) \<Rightarrow>
   (inventory \<times> product \<times> warehouse) list \<Rightarrow> alert list \<Rightarrow> py_error + alert list" where
  "alerts_loop cfg rmap amap smap [] alerts = Inr alerts"
| "alerts_loop cfg rmap amap smap (row # rows) alerts =
     (case alert_of cfg rmap amap smap row of
        Inl err \<Rightarrow> Inl err
      | Inr None \<Rightarrow> alerts_loop cfg rmap amap smap rows alerts
      | Inr (Some a) \<Rightarrow> alerts_loop cfg rmap amap smap rows (alerts @ [a]))"

subsection \<open>The view function\<close>

text \<open>
  \<open>low_stock_alerts cfg d now company_id\<close>: \<open>cfg\<close> holds the module's two window constants,
  \<open>d\<close> is the store the session reads, \<open>now\<close> is what \<open>datetime.utcnow()\<close> returns.
\<close>

definition low_stock_alerts :: "config \<Rightarrow> db \<Rightarrow> datetime \<Rightarrow> int \<Rightarrow> py_error + response" where
  "low_stock_alerts cfg d now company_id =
     (case company_get d company_id of
        None \<Rightarrow> Inr (ErrorBody ''Company not found'', 404)
      | Some company \<Rightarrow>
          (case days_before now (SALES_AVG_WINDOW_DAYS cfg) of
             Inl err \<Rightarrow> Inl err
           | Inr avg_since \<Rightarrow>
               (case days_before now (SALES_ACTIVITY_WINDOW_DAYS cfg) of
                  Inl err \<Rightarrow> Inl err
                | Inr activity_since \<Rightarrow>
                    let rows = candidate_rows d company_id
                    in if rows = [] then Inr (AlertsBody [] 0, 200)
                       else
                         let pids = product_ids rows;
                             recent_sales_map =
                               dict_of (recent_sales d company_id pids activity_since);
                             avg_sales_map = dict_of (avg_sales d company_id pids avg_since);
                             smap = supplier_map (suppliers_q d pids)
                         in (case alerts_loop cfg recent_sales_map avg_sales_map smap rows [] of
                               Inl err \<Rightarrow> Inl err
                             | Inr alerts \<Rightarrow>
                                 Inr (AlertsBody alerts (int (length alerts)), 200)))))"

subsection \<open>Reading the supplier map, the aggregates and the alert list\<close>

text \<open>The dictionary the supplier loop stores for a row of \<open>suppliers_q\<close>.\<close>

definition entry_of :: "supplier_row \<Rightarrow> supplier_entry" where
  "entry_of row = (case row of (prod_id, sup_id, sup_name, sup_email, is_primary) \<Rightarrow>
     \<lparr>se_id = sup_id, se_name = sup_name, se_contact_email = sup_email, se_is_primary = is_primary\<rparr>)"

text \<open>The links of one product, in the order of \<open>suppliers_q\<close>, and the flag of a link.\<close>

definition links_of :: "int \<Rightarrow> supplier_row list \<Rightarrow> supplier_row list" where
  "links_of pid rows = filter (\<lambda>row. fst row = pid) rows"

definition row_is_primary :: "supplier_row \<Rightarrow> bool" where
  "row_is_primary row = snd (snd (snd (snd row)))"

text \<open>The first primary link of a product if it has one, its first link otherwise.\<close>

definition preferred :: "supplier_row list \<Rightarrow> supplier_row option" where
  "preferred links =
     (case links of
        [] \<Rightarrow> None
      | first # later \<Rightarrow>
          (case find row_is_primary (first # later) of
             None \<Rightarrow> Some first
           | Some primary \<Rightarrow> Some primary))"

text \<open>
  The grouped query of steps 2 and 3 for a single product: the units of the product on the
  order items of the company's orders created at \<open>since\<close> or later.
\<close>

definition units_sold :: "db \<Rightarrow> int \<Rightarrow> int \<Rightarrow> datetime \<Rightarrow> int" where
  "units_sold d company_id pid since =
     sum_list [oi_quantity oi.
        oi \<leftarrow> order_items d,
        odr \<leftarrow> orders d, oi_order_id oi = o_id odr,
        o_company_id odr = company_id,
        oi_product_id oi = pid,
        since \<le> oi_created_at oi]"

text \<open>
  What one order item adds to the aggregate of a product: its quantity, once for every
  order of the company it joins with.
\<close>

definition matched_units :: "int \<Rightarrow> int \<Rightarrow> order list \<Rightarrow> order_item \<Rightarrow> int" where
  "matched_units company_id pid odrs oi =
     sum_list [oi_quantity oi.
        odr \<leftarrow> odrs, oi_order_id oi = o_id odr,
        o_company_id odr = company_id,
        oi_product_id oi = pid]"

text \<open>The three dictionaries \<open>low_stock_alerts\<close> builds for a company.\<close>

definition recent_sales_map :: "db \<Rightarrow> int \<Rightarrow> datetime \<Rightarrow> (int \<rightharpoonup> int)" where
  "recent_sales_map d company_id activity_since =
     dict_of (recent_sales d company_id (product_ids (candidate_rows d company_id)) activity_since)"

definition avg_sales_map :: "db \<Rightarrow> int \<Rightarrow> datetime \<Rightarrow> (int \<rightharpoonup> int)" where
  "avg_sales_map d company_id avg_since =
     dict_of (avg_sales d company_id (product_ids (candidate_rows d company_id)) avg_since)"

definition company_supplier_map :: "db \<Rightarrow> int \<Rightarrow> (int \<rightharpoonup> supplier_entry)" where
  "company_supplier_map d company_id =
     supplier_map (suppliers_q d (product_ids (candidate_rows d company_id)))"

text \<open>The fields an alert copies from its candidate row.\<close>

definition alert_position :: "alert \<Rightarrow> int \<times> string \<times> string \<times> int \<times> string \<times> int \<times> int" where
  "alert_position a =
     (product_id a, product_name a, sku a, warehouse_id a, warehouse_name a,
      current_stock a, threshold a)"

definition row_position ::
  "inventory \<times> product \<times> warehouse \<Rightarrow> int \<times> string \<times> string \<times> int \<times> string \<times> int \<times> int" where
  "row_position row =
     (case row of (ivt, prd, wh) \<Rightarrow>
        (p_id prd, p_name prd, p_sku prd, w_id wh, w_name wh, i_quantity ivt, i_threshold ivt))"

subsection \<open>A store to run the view function on\<close>

text \<open>
  One company with two warehouses. Product 1 is low in both (5 of 10, 10 of 10), sold 20
  units on 63900000000000000 and has two supplier links, the second one primary. Product 2
  has no sales; it is low in warehouse 1 and well stocked in warehouse 2.
\<close>

definition example_db :: db where
  "example_db =
     \<lparr>companies = [\<lparr>c_id = 1\<rparr>],
      warehouses = [\<lparr>w_id = 1, w_company_id = 1, w_name = ''W1''\<rparr>,
                    \<lparr>w_id = 2, w_company_id = 1, w_name = ''W2''\<rparr>],
      products = [\<lparr>p_id = 1, p_name = ''P1'', p_sku = ''SKU-1''\<rparr>,
                  \<lparr>p_id = 2, p_name = ''P2'', p_sku = ''SKU-2''\<rparr>],
      inventories = [\<lparr>i_product_id = 1, i_warehouse_id = 1, i_quantity = 5, i_threshold = 10\<rparr>,
                     \<lparr>i_product_id = 2, i_warehouse_id = 1, i_quantity = 3, i_threshold = 3\<rparr>,
                     \<lparr>i_product_id = 2, i_warehouse_id = 2, i_quantity = 9, i_threshold = 3\<rparr>,
                     \<lparr>i_product_id = 1, i_warehouse_id = 2, i_quantity = 10, i_threshold = 10\<rparr>],
      orders = [\<lparr>o_id = 1, o_company_id = 1\<rparr>],
      order_items = [\<lparr>oi_order_id = 1, oi_product_id = 1, oi_quantity = 20,
                       oi_created_at = 63900000000000000\<rparr>],
      suppliers = [\<lparr>s_id = 7, s_name = ''Acme'', s_contact_email = ''a@acme.test''\<rparr>,
                   \<lparr>s_id = 8, s_name = ''Best'', s_contact_email = ''b@best.test''\<rparr>],
      product_suppliers = [\<lparr>ps_product_id = 1, ps_supplier_id = 7, ps_is_primary = False\<rparr>,
                           \<lparr>ps_product_id = 1, ps_supplier_id = 8, ps_is_primary = True\<rparr>]\<rparr>"

definition example_alert_w1 :: alert where
  "example_alert_w1 =
     \<lparr>product_id = 1, product_name = ''P1'', sku = ''SKU-1'', warehouse_id = 1,
      warehouse_name = ''W1'', current_stock = 5, threshold = 10,
      days_until_stockout = Some 8,
      supplier = Some \<lparr>si_id = 8, si_name = ''Best'', si_contact_email = ''b@best.test''\<rparr>\<rparr>"

definition example_alert_w2 :: alert where
  "example_alert_w2 =
     \<lparr>product_id = 1, product_name = ''P1'', sku = ''SKU-1'', warehouse_id = 2,
      warehouse_name = ''W2'', current_stock = 10, threshold = 10,
      days_until_stockout = Some 15,
      supplier = Some \<lparr>si_id = 8, si_name = ''Best'', si_contact_email = ''b@best.test''\<rparr>\<rparr>"



definition no_supplier_db :: db where
  "no_supplier_db = example_db \<lparr>product_suppliers := []\<rparr>"


text \<open>
  The example store without inventory rows, and a configuration whose averaging window is
  zero days.
\<close>

definition idle_db :: db where
  "idle_db = example_db \<lparr>inventories := []\<rparr>"

definition zero_window_config :: config where
  "zero_window_config = \<lparr>SALES_AVG_WINDOW_DAYS = 0, SALES_ACTIVITY_WINDOW_DAYS = 60\<rparr>"

text \<open>
  The example store with one more order item, older than both windows, and the example
  store returning its inventory rows in the reverse order.
\<close>

definition archived_db :: db where
  "archived_db =
     example_db
       \<lparr>order_items := [\<lparr>oi_order_id = 1, oi_product_id = 1, oi_quantity = 99,
                          oi_created_at = 63800000000000000\<rparr>,
                        \<lparr>oi_order_id = 1, oi_product_id = 1, oi_quantity = 20,
                          oi_created_at = 63900000000000000\<rparr>]\<rparr>"

definition reversed_db :: db where
  "reversed_db = example_db \<lparr>inventories := rev (inventories example_db)\<rparr>"

section \<open>Binary64 rounding\<close>

text \<open>
  The value of a float, the exponent chosen by \<open>float_of_quotient\<close> and the distance
  between a rounded quotient and the exact one.
\<close>

subsection \<open>The exponent and the rounded mantissa\<close>

lemma bitlen_powi_bounds:
  assumes "0 < p"
  shows "(2::rat) powi (bitlen p - 1) \<le> of_int p" and "of_int p < (2::rat) powi (bitlen p)"
proof -
  from bitlen_bounds [OF assms] have lo: "2 ^ nat (bitlen p - 1) \<le> p" and hi: "p < 2 ^ nat (bitlen p)"
    by auto
  have pos: "1 \<le> bitlen p" using assms by (auto simp: bitlen_alt_def)
  from lo have "(of_int (2 ^ nat (bitlen p - 1)) :: rat) \<le> of_int p" by (simp only: of_int_le_iff)
  then show "(2::rat) powi (bitlen p - 1) \<le> of_int p"
    using pos by (simp add: power_int_def)
  from hi have "(of_int p :: rat) < of_int (2 ^ nat (bitlen p))" by (simp only: of_int_less_iff)
  then show "of_int p < (2::rat) powi (bitlen p)"
    using pos by (simp add: power_int_def)
qed

lemma floor_log2_test:
  assumes "0 < q"
  shows "(if 0 \<le> k then q * 2 ^ nat k \<le> p else q \<le> p * 2 ^ nat (- k))
         \<longleftrightarrow> (2::rat) powi k * of_int q \<le> of_int p"
proof (cases "0 \<le> k")
  case True
  have "(q * 2 ^ nat k \<le> p) = ((of_int (q * 2 ^ nat k) :: rat) \<le> of_int p)"
    by (simp only: of_int_le_iff)
  with True show ?thesis by (simp add: power_int_def mult.commute)
next
  case False
  have "(q \<le> p * 2 ^ nat (- k)) = ((of_int q :: rat) \<le> of_int (p * 2 ^ nat (- k)))"
    by (simp only: of_int_le_iff)
  also have "\<dots> = ((of_int q :: rat) \<le> of_int p * 2 ^ nat (- k))" by simp
  also have "\<dots> = ((2::rat) powi k * of_int q \<le> of_int p)"
    using False by (simp add: power_int_def field_simps)
  finally show ?thesis using False by simp
qed

lemma floor_log2_bounds:
  assumes "0 < p" and "0 < q"
  shows "(2::rat) powi (floor_log2 p q) * of_int q \<le> of_int p"
    and "of_int p < (2::rat) powi (floor_log2 p q + 1) * of_int q"
proof -
  let ?k = "bitlen p - bitlen q"
  have Q: "(0::rat) < of_int q" using assms by simp
  have P: "(0::rat) < of_int p" using assms by simp
  note bp = bitlen_powi_bounds [OF assms(1)] and bq = bitlen_powi_bounds [OF assms(2)]
  have split1: "(2::rat) powi (?k - 1) * 2 powi (bitlen q) = 2 powi (bitlen p - 1)"
    by (simp add: power_int_add [symmetric])
  have split2: "(2::rat) powi (?k + 1) * 2 powi (bitlen q - 1) = 2 powi (bitlen p)"
    by (simp add: power_int_add [symmetric])
  have lower: "(2::rat) powi (?k - 1) * of_int q \<le> of_int p"
  proof -
    have "(2::rat) powi (?k - 1) * of_int q \<le> 2 powi (?k - 1) * 2 powi (bitlen q)"
      using bq(2) by (intro mult_left_mono) (auto simp: less_imp_le)
    with split1 bp(1) show ?thesis by simp
  qed
  have upper: "of_int p < (2::rat) powi (?k + 1) * of_int q"
  proof -
    have "(2::rat) powi (?k + 1) * 2 powi (bitlen q - 1) \<le> 2 powi (?k + 1) * of_int q"
      using bq(1) by (intro mult_left_mono) auto
    with split2 bp(2) show ?thesis by simp
  qed
  show "(2::rat) powi (floor_log2 p q) * of_int q \<le> of_int p"
    using lower by (simp add: floor_log2_def Let_def floor_log2_test [OF assms(2)])
  show "of_int p < (2::rat) powi (floor_log2 p q + 1) * of_int q"
    using upper by (auto simp: floor_log2_def Let_def floor_log2_test [OF assms(2)] not_le)
qed

lemma round_half_even_div_error:
  assumes "0 < b"
  shows "\<bar>of_int (round_half_even_div a b) - (of_int a / of_int b :: rat)\<bar> \<le> 1 / 2"
proof -
  let ?f = "a div b" and ?r = "a mod b"
  have B: "(0::rat) < of_int b" using assms by simp
  have "(of_int a :: rat) = of_int (b * ?f + ?r)" by simp
  also have "\<dots> = of_int b * of_int ?f + of_int ?r"
    by (simp only: of_int_add of_int_mult)
  finally have "(of_int a / of_int b :: rat)
      = (of_int b * of_int ?f + of_int ?r) / of_int b"
    by (simp only:)
  also have "\<dots> = of_int ?f + of_int ?r / of_int b"
    using B by (simp add: add_divide_distrib)
  finally have eq: "(of_int a / of_int b :: rat) = of_int ?f + of_int ?r / of_int b" .
  have r0: "0 \<le> ?r" and r1: "?r < b" using assms by simp_all
  have R0: "(0::rat) \<le> of_int ?r / of_int b" using r0 B by simp
  have half1: "of_int ?r / of_int b < (1/2::rat)" if "2 * ?r < b"
  proof -
    from that have "(of_int (2 * ?r) :: rat) < of_int b" by (simp only: of_int_less_iff)
    then show ?thesis using B by (simp add: field_simps)
  qed
  have half2: "(1/2::rat) < of_int ?r / of_int b" if "b < 2 * ?r"
  proof -
    from that have "(of_int b :: rat) < of_int (2 * ?r)" by (simp only: of_int_less_iff)
    then show ?thesis using B by (simp add: field_simps)
  qed
  have half3: "of_int ?r / of_int b = (1/2::rat)" if "\<not> 2 * ?r < b" "\<not> b < 2 * ?r"
  proof -
    from that have "b = 2 * ?r" by simp
    then have "(of_int b :: rat) = of_int (2 * ?r)" by (simp only:)
    then show ?thesis using B by (simp add: field_simps)
  qed
  have R1: "of_int ?r / of_int b < (1::rat)"
  proof -
    from r1 have "(of_int ?r :: rat) < of_int b" by (simp only: of_int_less_iff)
    then show ?thesis using B by simp
  qed
  consider "2 * ?r < b" | "b < 2 * ?r" | "\<not> 2 * ?r < b" "\<not> b < 2 * ?r" by blast
  then show ?thesis
  proof cases
    case 1
    then have "round_half_even_div a b = ?f" by (simp add: round_half_even_div_def Let_def)
    with half1 [OF 1] R0 show ?thesis unfolding eq by simp
  next
    case 2
    then have "round_half_even_div a b = ?f + 1" by (simp add: round_half_even_div_def Let_def)
    with half2 [OF 2] R1 show ?thesis unfolding eq by simp
  next
    case 3
    then have "round_half_even_div a b = ?f \<or> round_half_even_div a b = ?f + 1"
      by (simp add: round_half_even_div_def Let_def)
    with half3 [OF 3] show ?thesis unfolding eq by auto
  qed
qed

subsection \<open>The error and the sign of a rounded quotient\<close>

lemma float_of_quotient_Inr:
  assumes "float_of_quotient p q = Inr f" and "p \<noteq> 0" and "0 < q"
  obtains a b where "0 < b" and "mantissa f = round_half_even_div a b"
    and "(of_int a / of_int b :: rat) = (of_int p / of_int q) / 2 powi (exponent f)"
    and "exponent f = max (floor_log2 \<bar>p\<bar> q - 52) (- 1074)"
proof -
  define e where "e = max (floor_log2 \<bar>p\<bar> q - 52) (- 1074)"
  define a where "a = (if 0 \<le> e then p else p * 2 ^ nat (- e))"
  define b where "b = (if 0 \<le> e then q * 2 ^ nat e else q)"
  from assms(1,2) have f: "f = F64 (round_half_even_div a b) e"
    by (auto simp: float_of_quotient_def Let_def e_def a_def b_def split: if_splits)
  have b: "0 < b" using assms(3) by (simp add: b_def)
  have "(of_int a / of_int b :: rat) = (of_int p / of_int q) / 2 powi e"
    by (simp add: a_def b_def power_int_def field_simps)
  with that [OF b, of a] f show ?thesis by (simp add: e_def)
qed

lemma float_of_quotient_error:
  assumes "float_of_quotient p q = Inr f" and "p \<noteq> 0" and "0 < q"
  shows "\<bar>valof f - of_int p / of_int q\<bar> \<le> 2 powi (exponent f) / 2"
proof -
  from assms obtain a b where b: "0 < b" and m: "mantissa f = round_half_even_div a b"
    and ab: "(of_int a / of_int b :: rat) = (of_int p / of_int q) / 2 powi (exponent f)"
    by (rule float_of_quotient_Inr)
  let ?s = "(2::rat) powi (exponent f)"
  have s: "0 < ?s" by simp
  from round_half_even_div_error [OF b, of a] m ab
  have "\<bar>of_int (mantissa f) - (of_int p / of_int q) / ?s\<bar> \<le> 1 / 2" by simp
  then have step: "\<bar>of_int (mantissa f) - (of_int p / of_int q) / ?s\<bar> * ?s \<le> 1 / 2 * ?s"
    using s by (intro mult_right_mono) simp_all
  have "\<bar>of_int (mantissa f) - (of_int p / of_int q) / ?s\<bar> * ?s
      = \<bar>valof f - of_int p / of_int q\<bar>"
  proof -
    have "\<bar>of_int (mantissa f) - (of_int p / of_int q) / ?s\<bar> * ?s
        = \<bar>(of_int (mantissa f) - (of_int p / of_int q) / ?s) * ?s\<bar>"
      using s by (simp add: abs_mult)
    also have "(of_int (mantissa f) - (of_int p / of_int q) / ?s) * ?s
        = valof f - of_int p / of_int q"
      using s by (simp add: valof_def left_diff_distrib)
    finally show ?thesis .
  qed
  with step have "\<bar>valof f - of_int p / of_int q\<bar> \<le> 1 / 2 * ?s" by (simp only:)
  then show ?thesis by simp
qed


lemma round_half_even_div_nonpos:
  assumes "0 < b" and "a \<le> 0"
  shows "round_half_even_div a b \<le> 0"
proof -
  have B: "(0::rat) < of_int b" using assms by simp
  have "(of_int a / of_int b :: rat) \<le> 0" using assms B by (simp add: divide_le_0_iff)
  with round_half_even_div_error [OF assms(1), of a]
  have "(of_int (round_half_even_div a b) :: rat) \<le> 1 / 2" by linarith
  then have "(of_int (round_half_even_div a b) :: rat) < of_int 1" by simp
  then have "round_half_even_div a b < 1" by (simp only: of_int_less_iff)
  then show ?thesis by simp
qed


lemma float_of_quotient_nonpos:
  assumes "float_of_quotient p q = Inr f" and "p \<le> 0" and "0 < q"
  shows "mantissa f \<le> 0"
proof (cases "p = 0")
  case True
  with assms show ?thesis by (auto simp: float_of_quotient_def)
next
  case False
  from assms(1) False assms(3) obtain a b where b: "0 < b"
    and m: "mantissa f = round_half_even_div a b"
    and ab: "(of_int a / of_int b :: rat) = (of_int p / of_int q) / 2 powi (exponent f)"
    by (rule float_of_quotient_Inr)
  have "(of_int p / of_int q) / 2 powi (exponent f) \<le> (0::rat)"
    using assms by (simp add: divide_le_0_iff)
  with ab have "of_int a / of_int b \<le> (0::rat)" by simp
  with b have "of_int a \<le> (0::rat)" by (simp add: divide_le_0_iff)
  then have "a \<le> 0" by simp
  with b m show ?thesis by (simp add: round_half_even_div_nonpos)
qed

lemma valof_pos_iff: "0 < valof f \<longleftrightarrow> 0 < mantissa f"
proof -
  have pos: "(0::rat) < 2 powi exponent f" by (rule zero_less_power_int) simp
  show ?thesis
  proof
    assume "0 < valof f"
    then have "(0::rat) < of_int (mantissa f) * 2 powi exponent f" by (simp only: valof_def)
    with pos have "(0::rat) < of_int (mantissa f)" by (rule_tac zero_less_mult_pos2)
    then show "0 < mantissa f" by simp
  next
    assume "0 < mantissa f"
    then have "(0::rat) < of_int (mantissa f)" by simp
    with pos show "0 < valof f" unfolding valof_def by (rule_tac mult_pos_pos)
  qed
qed
lemma float_of_quotient_pos:
  assumes "float_of_quotient p q = Inr f" and "0 < p" and "0 < q"
    and "(2::rat) powi (- 1074) \<le> of_int p / of_int q"
  shows "0 < mantissa f"
proof -
  let ?k = "floor_log2 \<bar>p\<bar> q" and ?v = "(of_int p / of_int q :: rat)"
  have "p \<noteq> 0" using assms(2) by simp
  with assms(1) obtain a b where
    e: "exponent f = max (?k - 52) (- 1074)"
    using assms(3) by (rule float_of_quotient_Inr)
  have Q: "(0::rat) < of_int q" using assms by simp
  from floor_log2_bounds(1) [of "\<bar>p\<bar>" q] assms
  have "(2::rat) powi ?k * of_int q \<le> of_int p" by simp
  then have k: "(2::rat) powi ?k \<le> ?v" using Q by (simp add: pos_le_divide_eq)
  have "(2::rat) powi (exponent f) \<le> ?v"
  proof (cases "- 1074 \<le> ?k - 52")
    case True
    then have "exponent f = ?k - 52" using e by simp
    then have "(2::rat) powi (exponent f) \<le> 2 powi ?k"
      by (simp add: power_int_increasing)
    with k show ?thesis by simp
  next
    case False
    then have "exponent f = - 1074" using e by simp
    with assms(4) show ?thesis by (simp only:)
  qed
  moreover have "(0::rat) < 2 powi (exponent f)" by (rule zero_less_power_int) simp
  ultimately have "2 powi (exponent f) / 2 < ?v" by linarith
  with float_of_quotient_error [OF assms(1) \<open>p \<noteq> 0\<close> assms(3)]
  have "0 < valof f" by linarith
  then show ?thesis by (simp add: valof_pos_iff)
qed

subsection \<open>Finite results, exact integers, ceiling and division\<close>

lemma powi_less_cancel:
  assumes "(2::rat) powi a < 2 powi b"
  shows "a < b"
proof (rule ccontr)
  assume "\<not> a < b"
  then have "b \<le> a" by simp
  then have "(2::rat) powi b \<le> 2 powi a" by (rule power_int_increasing) simp
  with assms show False by simp
qed

lemma round_half_even_div_one [simp]: "round_half_even_div a 1 = a"
  by (simp add: round_half_even_div_def)

lemma round_half_even_div_bound:
  assumes "0 < b" and "\<bar>of_int a / of_int b :: rat\<bar> < 2 ^ 53"
  shows "\<bar>round_half_even_div a b\<bar> \<le> 2 ^ 53"
proof -
  from round_half_even_div_error [OF assms(1), of a] assms(2)
  have "\<bar>of_int (round_half_even_div a b) :: rat\<bar> < 2 ^ 53 + 1" by linarith
  then have "(of_int \<bar>round_half_even_div a b\<bar> :: rat) < of_int (2 ^ 53 + 1)" by simp
  then have "\<bar>round_half_even_div a b\<bar> < 2 ^ 53 + 1" by (simp only: of_int_less_iff)
  then show ?thesis by simp
qed

lemma float_of_quotient_finite:
  assumes "p \<noteq> 0" and "0 < q" and "floor_log2 \<bar>p\<bar> q \<le> 1022"
  shows "\<exists>f. float_of_quotient p q = Inr f"
proof -
  define k where "k = floor_log2 \<bar>p\<bar> q"
  define e where "e = max (k - 52) (- 1074)"
  define m where "m = (if 0 \<le> e then round_half_even_div p (q * 2 ^ nat e)
                 else round_half_even_div (p * 2 ^ nat (- e)) q)"
  have "\<bar>m\<bar> * 2 ^ nat e < 2 ^ 1024" if e0: "0 \<le> e"
  proof -
    from e0 have e: "e = k - 52" by (simp add: e_def split: if_splits)
    from e0 have m: "m = round_half_even_div p (q * 2 ^ nat e)" by (simp add: m_def)
    have Q: "(0::rat) < of_int q" using assms by simp
    from floor_log2_bounds(2) [of "\<bar>p\<bar>" q] assms
    have "(of_int \<bar>p\<bar> :: rat) < 2 powi (k + 1) * of_int q" by (simp add: k_def)
    then have "(of_int \<bar>p\<bar> :: rat) / of_int q < 2 powi (k + 1)"
      using Q by (simp add: pos_divide_less_eq)
    also have "(2::rat) powi (k + 1) = 2 ^ 53 * 2 ^ nat e"
    proof -
      have "k + 1 = int (53 + nat e)" using e0 e by simp
      then have "(2::rat) powi (k + 1) = 2 ^ (53 + nat e)" by (simp only: power_int_of_nat)
      then show ?thesis by (simp only: power_add)
    qed
    finally have "(of_int \<bar>p\<bar> :: rat) / of_int q < 2 ^ 53 * 2 ^ nat e" .
    moreover have "(0::rat) < 2 ^ nat e" by simp
    ultimately have "(of_int \<bar>p\<bar> :: rat) / of_int q / 2 ^ nat e < 2 ^ 53"
      by (simp only: pos_divide_less_eq)
    moreover have "\<bar>of_int p / of_int (q * 2 ^ nat e) :: rat\<bar>
        = (of_int \<bar>p\<bar> :: rat) / of_int q / 2 ^ nat e"
      using Q by (simp add: abs_mult)
    ultimately have "\<bar>of_int p / of_int (q * 2 ^ nat e) :: rat\<bar> < 2 ^ 53" by (simp only:)
    moreover have "0 < q * 2 ^ nat e" using assms by simp
    ultimately have "\<bar>m\<bar> \<le> 2 ^ 53" unfolding m by (rule round_half_even_div_bound [rotated])
    then have "\<bar>m\<bar> * 2 ^ nat e \<le> 2 ^ 53 * 2 ^ nat e" by (intro mult_right_mono) simp_all
    also have "(2::int) ^ 53 * 2 ^ nat e = 2 ^ (53 + nat e)" by (simp only: power_add)
    also have "(2::int) ^ (53 + nat e) < 2 ^ 1024"
    proof (rule power_strict_increasing)
      from assms(3) e e0 show "53 + nat e < 1024" by (simp add: k_def)
    qed simp
    finally show ?thesis .
  qed
  then have "\<not> (0 \<le> e \<and> 2 ^ 1024 \<le> \<bar>m\<bar> * 2 ^ nat e)" by (blast dest: leD)
  with assms(1) show ?thesis
    unfolding float_of_quotient_def Let_def k_def [symmetric] e_def [symmetric] m_def [symmetric]
    by (simp only: if_False simp_thms) blast
qed

lemma floor_log2_le:
  assumes "0 < p" and "0 < q" and "(of_int p :: rat) / of_int q < 2 powi n"
  shows "floor_log2 p q < n"
proof -
  have Q: "(0::rat) < of_int q" using assms by simp
  from floor_log2_bounds(1) [OF assms(1,2)]
  have "(2::rat) powi (floor_log2 p q) \<le> of_int p / of_int q"
    using Q by (simp add: pos_le_divide_eq)
  with assms(3) have "(2::rat) powi (floor_log2 p q) < 2 powi n" by linarith
  then show ?thesis by (rule powi_less_cancel)
qed



lemma float_truediv_quotient:
  assumes "mantissa y \<noteq> 0"
  obtains P Q where "0 < Q" and "float_truediv x y = float_of_quotient P Q"
    and "(of_int P / of_int Q :: rat) = valof x / valof y"
proof -
  define d where "d = exponent x - exponent y"
  define P where "P = sgn (mantissa y) * mantissa x * 2 ^ nat d"
  define Q where "Q = \<bar>mantissa y\<bar> * 2 ^ nat (- d)"
  have Q: "0 < Q" using assms by (simp add: Q_def)
  have res: "float_truediv x y = float_of_quotient P Q"
    using assms by (simp add: float_truediv_def Let_def P_def Q_def d_def)
  have sg: "(of_int (sgn (mantissa y)) :: rat) / of_int \<bar>mantissa y\<bar> = 1 / of_int (mantissa y)"
    using assms by (cases "0 < mantissa y") (simp_all add: field_simps)
  have pw: "(2::rat) ^ nat d / 2 ^ nat (- d) = 2 powi exponent x / 2 powi exponent y"
  proof -
    have "(2::rat) ^ nat d / 2 ^ nat (- d) = 2 powi d"
      by (cases "0 \<le> d") (simp_all add: power_int_def field_simps)
    also have "\<dots> = 2 powi exponent x / 2 powi exponent y"
      by (simp add: d_def power_int_diff)
    finally show ?thesis .
  qed
  have "(of_int P / of_int Q :: rat)
      = (of_int (sgn (mantissa y)) / of_int \<bar>mantissa y\<bar>) * of_int (mantissa x)
        * (2 ^ nat d / 2 ^ nat (- d))"
    by (simp add: P_def Q_def)
  also have "\<dots> = valof x / valof y"
    unfolding sg pw by (simp add: valof_def)
  finally show ?thesis using that [OF Q res] by simp
qed

subsection \<open>The relative error in the normal range\<close>

lemma powi_neg_numeral: "(2::rat) powi (- int n) = 1 / 2 ^ n"
  by (simp add: power_int_minus inverse_eq_divide)

lemma powi_minus_52: "(2::rat) powi (k - 52) = 2 powi k / 2 ^ 52"
proof -
  have "(2::rat) powi (k - 52) = 2 powi (k + (- 52))" by simp
  also have "\<dots> = 2 powi k * 2 powi (- 52)" by (rule power_int_add) simp
  also have "(2::rat) powi (- 52) = 1 / 2 ^ 52" using powi_neg_numeral [of 52] by simp
  finally show ?thesis by simp
qed

lemma floor_log2_ge:
  assumes "0 < p" and "0 < q" and "(2::rat) powi n \<le> of_int p / of_int q"
  shows "n \<le> floor_log2 p q"
proof -
  have Q: "(0::rat) < of_int q" using assms by simp
  from floor_log2_bounds(2) [OF assms(1,2)]
  have "(of_int p :: rat) / of_int q < 2 powi (floor_log2 p q + 1)"
    using Q by (simp add: pos_divide_less_eq)
  with assms(3) have "(2::rat) powi n < 2 powi (floor_log2 p q + 1)" by linarith
  then have "n < floor_log2 p q + 1" by (rule powi_less_cancel)
  then show ?thesis by simp
qed

lemma float_of_quotient_relative_error:
  assumes "float_of_quotient p q = Inr f" and "p \<noteq> 0" and "0 < q"
    and "(2::rat) powi (- 1022) \<le> \<bar>of_int p / of_int q\<bar>"
  shows "\<bar>valof f - of_int p / of_int q\<bar> \<le> \<bar>of_int p / of_int q\<bar> / 2 ^ 53"
proof -
  let ?k = "floor_log2 \<bar>p\<bar> q" and ?v = "(of_int p / of_int q :: rat)"
  have Q: "(0::rat) < of_int q" using assms by simp
  have P: "0 < \<bar>p\<bar>" using assms by simp
  have av: "\<bar>?v\<bar> = of_int \<bar>p\<bar> / of_int q" using Q by simp
  from assms(1-3) obtain a b where e: "exponent f = max (?k - 52) (- 1074)"
    by (rule float_of_quotient_Inr)
  from floor_log2_ge [OF P assms(3), of "- 1022"] assms(4) av
  have "- 1022 \<le> ?k" by (simp only:)
  with e have e': "exponent f = ?k - 52" by simp
  from floor_log2_bounds(1) [OF P assms(3)]
  have k: "(2::rat) powi ?k \<le> \<bar>?v\<bar>"
    unfolding av using Q by (simp add: pos_le_divide_eq)
  have "(2::rat) powi (exponent f) / 2 = 2 powi ?k / 2 ^ 53"
    unfolding e' powi_minus_52 by simp
  also have "\<dots> \<le> \<bar>?v\<bar> / 2 ^ 53"
    using k by (simp add: divide_right_mono)
  finally have "(2::rat) powi (exponent f) / 2 \<le> \<bar>?v\<bar> / 2 ^ 53" .
  with float_of_quotient_error [OF assms(1-3)] show ?thesis by linarith
qed

lemma int_truediv_pos_divisor:
  "0 < w \<Longrightarrow> int_truediv s w = float_of_quotient s w"
  by (simp add: int_truediv_def)

lemma ratio_lower:
  assumes "1 \<le> s" and "1 \<le> w" and "w \<le> 999999999"
  shows "(2::rat) powi (- 30) \<le> of_int s / of_int w"
proof -
  have W: "(0::rat) < of_int w" using assms by simp
  have "(of_int w :: rat) \<le> of_int 999999999" using assms(3) by (simp only: of_int_le_iff)
  then have "(of_int w :: rat) \<le> 2 ^ 30" by simp
  moreover have "(1::rat) \<le> of_int s" using assms(1) by simp
  ultimately have "(of_int w :: rat) * 1 \<le> 2 ^ 30 * of_int s"
    by (intro mult_mono) simp_all
  then have "(of_int w :: rat) \<le> of_int s * 2 ^ 30" by (simp add: mult.commute)
  then have "1 / 2 ^ 30 \<le> (of_int s :: rat) / of_int w"
    using W by (simp add: field_simps)
  moreover have "(2::rat) powi (- 30) = 1 / 2 ^ 30"
    using powi_neg_numeral [of 30] by simp
  ultimately show ?thesis by simp
qed

lemma avg_positive:
  assumes "int_truediv s w = Inr avg" and "1 \<le> w" and "w \<le> 999999999"
  shows "float_gt_zero avg \<longleftrightarrow> 0 < s"
proof (cases "0 < s")
  case True
  from assms(2) have res: "float_of_quotient s w = Inr avg"
    using assms(1) by (simp add: int_truediv_pos_divisor)
  from True assms have "(2::rat) powi (- 30) \<le> of_int s / of_int w"
    by (intro ratio_lower) simp_all
  moreover have "(2::rat) powi (- 1074) \<le> 2 powi (- 30)"
    by (rule power_int_increasing) simp_all
  ultimately have "(2::rat) powi (- 1074) \<le> of_int s / of_int w" by linarith
  with res True assms(2) have "0 < mantissa avg"
    by (intro float_of_quotient_pos [of s w]) simp_all
  with True show ?thesis by (simp add: float_gt_zero_def)
next
  case False
  from assms(2) have res: "float_of_quotient s w = Inr avg"
    using assms(1) by (simp add: int_truediv_pos_divisor)
  with False assms(2) have "mantissa avg \<le> 0"
    by (intro float_of_quotient_nonpos [of s w]) simp_all
  with False show ?thesis by (simp add: float_gt_zero_def)
qed

lemma avg_relative_error:
  assumes "int_truediv s w = Inr avg" and "1 \<le> w" and "w \<le> 999999999" and "0 < s"
  shows "\<bar>valof avg - of_int s / of_int w\<bar> \<le> (of_int s / of_int w) / 2 ^ 53"
proof -
  from assms(2) have res: "float_of_quotient s w = Inr avg"
    using assms(1) by (simp add: int_truediv_pos_divisor)
  have pos: "(0::rat) < of_int s / of_int w" using assms by simp
  from assms have "(2::rat) powi (- 30) \<le> of_int s / of_int w"
    by (intro ratio_lower) simp_all
  moreover have "(2::rat) powi (- 1022) \<le> 2 powi (- 30)"
    by (rule power_int_increasing) simp_all
  ultimately have "(2::rat) powi (- 1022) \<le> \<bar>of_int s / of_int w :: rat\<bar>"
    using pos by linarith
  with res assms have "\<bar>valof avg - of_int s / of_int w\<bar> \<le> \<bar>of_int s / of_int w :: rat\<bar> / 2 ^ 53"
    by (intro float_of_quotient_relative_error) simp_all
  with pos show ?thesis by simp
qed

subsection \<open>From two rounded divisions to the exact ceiling\<close>



lemma avg_bounds:
  assumes "int_truediv s w = Inr avg" and "1 \<le> w" and "w \<le> 999999999" and "0 < s"
    and "s < 2 ^ 63"
  shows "1 / 2 ^ 31 \<le> valof avg" and "valof avg < 2 ^ 64"
proof -
  let ?S = "(of_int s / of_int w :: rat)"
  have W: "(1::rat) \<le> of_int w" using assms(2) by simp
  have lo: "1 / 2 ^ 30 \<le> ?S"
    using ratio_lower [OF _ assms(2,3), of s] assms(4) powi_neg_numeral [of 30] by simp
  have "(of_int s :: rat) < of_int (2 ^ 63)" using assms(5) by (simp only: of_int_less_iff)
  then have s: "(of_int s :: rat) < 2 ^ 63" by simp
  have "?S \<le> of_int s"
    using W assms(4) by (simp add: field_simps mult_le_cancel_left1)
  with s have hi: "?S < 2 ^ 63" by linarith
  note err = avg_relative_error [OF assms(1-4)]
  from err lo show "1 / 2 ^ 31 \<le> valof avg" by (simp add: abs_le_iff) 
  from err hi lo show "valof avg < 2 ^ 64" by (simp add: abs_le_iff)
qed








subsection \<open>No overflow on 64-bit integers\<close>

lemma float_of_quotient_finite_bound:
  assumes "0 < q" and "\<bar>of_int p / of_int q :: rat\<bar> < 2 ^ 1022"
  shows "\<exists>f. float_of_quotient p q = Inr f"
proof (cases "p = 0")
  case True
  then show ?thesis by (simp add: float_of_quotient_def)
next
  case False
  have Q: "(0::rat) < of_int q" using assms by simp
  have "(of_int \<bar>p\<bar> / of_int q :: rat) = \<bar>of_int p / of_int q\<bar>" using Q by simp
  also have "\<dots> < 2 ^ 1022" by (rule assms(2))
  also have "(2::rat) ^ 1022 = 2 powi 1022" by simp
  finally have "floor_log2 \<bar>p\<bar> q < 1022"
    using False assms(1) by (intro floor_log2_le) simp_all
  with False assms(1) show ?thesis by (intro float_of_quotient_finite) simp_all
qed

lemma int_truediv_total:
  assumes "1 \<le> w" and "\<bar>s\<bar> < 2 ^ 63"
  shows "\<exists>avg. int_truediv s w = Inr avg"
proof -
  have W: "(1::rat) \<le> of_int w" using assms(1) by simp
  have "(of_int \<bar>s\<bar> :: rat) < of_int (2 ^ 63)" using assms(2) by (simp only: of_int_less_iff)
  then have s: "\<bar>of_int s :: rat\<bar> < 2 ^ 63" by simp
  have "\<bar>of_int s / of_int w :: rat\<bar> = \<bar>of_int s\<bar> / of_int w" using W by simp
  also have "\<dots> \<le> \<bar>of_int s\<bar> / 1"
    using W by (intro divide_left_mono) simp_all
  also have "\<dots> = \<bar>of_int s\<bar>" by simp
  also note s
  also have "(2::rat) ^ 63 < 2 ^ 1022" by (rule power_strict_increasing) simp_all
  finally have "\<bar>of_int s / of_int w :: rat\<bar> < 2 ^ 1022" .
  with assms(1) have "\<exists>f. float_of_quotient s w = Inr f"
    by (intro float_of_quotient_finite_bound) simp_all
  with assms(1) show ?thesis by (simp add: int_truediv_pos_divisor)
qed

lemma float_of_int_total:
  assumes "\<bar>q\<bar> < 2 ^ 63"
  shows "\<exists>xq. float_of_int q = Inr xq \<and> \<bar>valof xq\<bar> < 2 ^ 64"
proof (cases "q = 0")
  case True
  then show ?thesis by (simp add: float_of_int_def float_of_quotient_def valof_def)
next
  case False
  have "(of_int \<bar>q\<bar> :: rat) < of_int (2 ^ 63)" using assms by (simp only: of_int_less_iff)
  then have q: "\<bar>of_int q :: rat\<bar> < 2 ^ 63" by simp
  have "(2::rat) ^ 63 < 2 ^ 1022" by (rule power_strict_increasing) simp_all
  with q have "\<bar>of_int q / of_int 1 :: rat\<bar> < 2 ^ 1022" by simp
  then obtain xq where xq: "float_of_quotient q 1 = Inr xq"
    using float_of_quotient_finite_bound [of 1 q] by auto
  have "(1::rat) \<le> \<bar>of_int q\<bar>" using False by (simp add: of_int_abs [symmetric] del: of_int_abs)
  moreover have "(2::rat) powi (- 1022) \<le> 2 powi 0" by (rule power_int_increasing) simp_all
  ultimately have "(2::rat) powi (- 1022) \<le> \<bar>of_int q / of_int 1 :: rat\<bar>" by simp
  from float_of_quotient_relative_error [OF xq False _ this]
  have err: "\<bar>valof xq - of_int q\<bar> \<le> \<bar>of_int q :: rat\<bar> / 2 ^ 53" by simp
  have p53: "(2::rat) ^ 53 = 9007199254740992" and p63: "(2::rat) ^ 63 = 9223372036854775808"
    and p64: "(2::rat) ^ 64 = 18446744073709551616" by simp_all
  from q err have "\<bar>valof xq\<bar> < 2 ^ 64" unfolding p53 p63 p64 by linarith
  with xq show ?thesis by (simp add: float_of_int_def)
qed

lemma projection_total:
  assumes w: "1 \<le> w" "w \<le> 999999999" and s: "\<bar>s\<bar> < 2 ^ 63" and q: "\<bar>q\<bar> < 2 ^ 63"
  shows "\<exists>avg. int_truediv s w = Inr avg
           \<and> (float_gt_zero avg \<longrightarrow> (\<exists>x. int_float_truediv q avg = Inr x))"
proof -
  from int_truediv_total [OF w(1) s] obtain avg where avg: "int_truediv s w = Inr avg" ..
  have "\<exists>x. int_float_truediv q avg = Inr x" if gt: "float_gt_zero avg"
  proof -
    from avg_positive [OF avg w] gt have s0: "0 < s" by simp
    with s have s1: "s < 2 ^ 63" by simp
    from gt have m: "0 < mantissa avg" by (simp add: float_gt_zero_def)
    note A = avg_bounds(1) [OF avg w s0 s1]
    then have Apos: "0 < valof avg" by (simp add: valof_pos_iff m)
    from float_of_int_total [OF q] obtain xq where
      xq: "float_of_int q = Inr xq" and b: "\<bar>valof xq\<bar> < 2 ^ 64" by blast
    from m have nz: "mantissa avg \<noteq> 0" by simp
    from float_truediv_quotient [OF nz, of xq] obtain P Q where
      Q: "0 < Q" and res: "float_truediv xq avg = float_of_quotient P Q"
      and val: "(of_int P / of_int Q :: rat) = valof xq / valof avg" by blast
    have "\<bar>valof xq / valof avg\<bar> = \<bar>valof xq\<bar> / valof avg" using Apos by simp
    also have "\<dots> \<le> \<bar>valof xq\<bar> * 2 ^ 31"
    proof -
      have "1 / valof avg \<le> 2 ^ 31" using A Apos by (simp add: field_simps)
      then have "\<bar>valof xq\<bar> * (1 / valof avg) \<le> \<bar>valof xq\<bar> * 2 ^ 31"
        by (intro mult_left_mono) simp_all
      then show ?thesis by simp
    qed
    also have "\<dots> < 2 ^ 64 * 2 ^ 31" using b by (intro mult_strict_right_mono) simp_all
    also have "(2::rat) ^ 64 * 2 ^ 31 = 2 ^ 95" by (simp only: power_add [symmetric]) simp
    also have "(2::rat) ^ 95 < 2 ^ 1022" by (rule power_strict_increasing) simp_all
    finally have "\<bar>of_int P / of_int Q :: rat\<bar> < 2 ^ 1022" unfolding val .
    from float_of_quotient_finite_bound [OF Q this] xq res show ?thesis
      by (simp add: int_float_truediv_def)
  qed
  with avg show ?thesis by blast
qed

section \<open>Properties\<close>

subsection \<open>The divisions of the projection\<close>

lemma float_of_quotient_not_zerodiv: "float_of_quotient p q \<noteq> Inl ZeroDivisionError"
  by (simp add: float_of_quotient_def Let_def)

lemma avg_daily_sales_not_zerodiv: "avg_daily_sales cfg sold \<noteq> Inl ZeroDivisionError"
  by (simp add: avg_daily_sales_def int_truediv_def float_of_quotient_not_zerodiv)

lemma int_float_truediv_not_zerodiv:
  "float_gt_zero y \<Longrightarrow> int_float_truediv n y \<noteq> Inl ZeroDivisionError"
  by (auto simp: int_float_truediv_def float_of_int_def float_truediv_def float_gt_zero_def
      float_of_quotient_not_zerodiv Let_def split: sum.splits)

lemma stockout_days_not_zerodiv: "stockout_days cfg q sold \<noteq> Inl ZeroDivisionError"
  using avg_daily_sales_not_zerodiv [of cfg sold]
  by (auto simp: stockout_days_def split: sum.splits dest: int_float_truediv_not_zerodiv)

lemma avg_daily_sales_total:
  assumes "\<bar>sold\<bar> < 2 ^ 63"
  shows "\<exists>avg. avg_daily_sales cfg sold = Inr avg"
  unfolding avg_daily_sales_def by (rule int_truediv_total) (use assms in simp_all)

text \<open>
  Claim C8. The divisor of \<open>avg_daily_sales\<close> is \<open>max(SALES_AVG_WINDOW_DAYS, 1)\<close>, which is
  at least 1 whatever the configured window is (zero and negative windows included), so the
  division never raises \<open>ZeroDivisionError\<close>, and it returns a float for every sum that fits
  a 64-bit integer; the second division of the projection is only reached with a positive
  divisor and does not raise \<open>ZeroDivisionError\<close> either.
\<close>

theorem window_clamped_no_division_by_zero:
  "avg_daily_sales cfg sold = int_truediv sold (max (SALES_AVG_WINDOW_DAYS cfg) 1)
   \<and> 1 \<le> max (SALES_AVG_WINDOW_DAYS cfg) 1
   \<and> avg_daily_sales cfg sold \<noteq> Inl ZeroDivisionError
   \<and> stockout_days cfg quantity sold \<noteq> Inl ZeroDivisionError
   \<and> (\<bar>sold\<bar> < 2 ^ 63 \<longrightarrow> (\<exists>avg. avg_daily_sales cfg sold = Inr avg))"
  by (simp add: avg_daily_sales_def avg_daily_sales_not_zerodiv [unfolded avg_daily_sales_def]
      stockout_days_not_zerodiv avg_daily_sales_total [unfolded avg_daily_sales_def])

text \<open>
  With a window of zero days the divisor is 1 and the average of 20 units is computed.
\<close>

theorem window_clamped_no_division_by_zero_witness:
  "\<bar>20 :: int\<bar> < 2 ^ 63
   \<and> SALES_AVG_WINDOW_DAYS zero_window_config = 0
   \<and> avg_daily_sales zero_window_config 20 = int_truediv 20 1
   \<and> avg_daily_sales zero_window_config 20 \<noteq> Inl ZeroDivisionError
   \<and> (\<exists>avg. avg_daily_sales zero_window_config 20 = Inr avg)"
proof -
  have b: "\<bar>20 :: int\<bar> < 2 ^ 63" by simp
  have w: "SALES_AVG_WINDOW_DAYS zero_window_config = 0" by (simp add: zero_window_config_def)
  note clamp = window_clamped_no_division_by_zero [of zero_window_config 20 5]
  from clamp have "avg_daily_sales zero_window_config 20
      = int_truediv 20 (max (SALES_AVG_WINDOW_DAYS zero_window_config) 1)" by (rule conjunct1)
  then have e: "avg_daily_sales zero_window_config 20 = int_truediv 20 1" unfolding w by simp
  from clamp have nz: "avg_daily_sales zero_window_config 20 \<noteq> Inl ZeroDivisionError" by blast
  from clamp b have ex: "\<exists>avg. avg_daily_sales zero_window_config 20 = Inr avg" by blast
  from b w e nz ex show ?thesis by blast
qed

subsection \<open>An unknown company\<close>

lemma company_get_None: "company_get d cid = None \<longleftrightarrow> cid \<notin> c_id ` set (companies d)"
  by (auto simp: company_get_def find_None_iff)

text \<open>
  Claim C5. A request for a company identifier that no row of the company table carries is
  answered with the body \<open>{"error": "Company not found"}\<close> and the status 404: not an
  exception, and not the status 200 with an empty alert list.
\<close>

theorem company_not_found:
  assumes "company_id \<notin> c_id ` set (companies d)"
  shows "low_stock_alerts cfg d now company_id = Inr (ErrorBody ''Company not found'', 404)"
  using assms by (simp add: low_stock_alerts_def company_get_None [symmetric])

text \<open>
  The example store has the company 1 only; a request for the company 2 is answered with
  the 404 response.
\<close>

theorem company_not_found_witness:
  "2 \<notin> c_id ` set (companies example_db)
   \<and> low_stock_alerts default_config example_db 63900864000000000 2
       = Inr (ErrorBody ''Company not found'', 404)"
proof -
  have absent: "2 \<notin> c_id ` set (companies example_db)"
    by (simp add: example_db_def)
  from company_not_found [OF absent] absent show ?thesis by simp
qed

subsection \<open>The resolved supplier\<close>

lemma supplier_step_apply:
  "supplier_step m row pid =
     (if fst row = pid
      then (case m pid of
              None \<Rightarrow> Some (entry_of row)
            | Some entry \<Rightarrow>
                if row_is_primary row \<and> \<not> se_is_primary entry then Some (entry_of row)
                else Some entry)
      else m pid)"
  by (cases row) (auto simp: supplier_step_def entry_of_def row_is_primary_def split: option.splits)

lemma supplier_loop_snoc:
  "supplier_loop m (rows @ [row]) = supplier_step (supplier_loop m rows) row"
  by (induction rows arbitrary: m) simp_all

lemma se_is_primary_entry_of [simp]: "se_is_primary (entry_of row) = row_is_primary row"
  by (cases row) (simp add: entry_of_def row_is_primary_def)

lemma supplier_loop_apply:
  "supplier_loop m rows pid =
     (case m pid of
        None \<Rightarrow> map_option entry_of (preferred (links_of pid rows))
      | Some entry \<Rightarrow>
          if se_is_primary entry then Some entry
          else (case find row_is_primary (links_of pid rows) of
                  None \<Rightarrow> Some entry
                | Some primary \<Rightarrow> Some (entry_of primary)))"
proof (induction rows arbitrary: m)
  case Nil
  then show ?case by (simp add: links_of_def preferred_def split: option.splits)
next
  case (Cons row rows)
  show ?case
    by (simp add: Cons.IH supplier_step_apply links_of_def preferred_def split: option.splits)
qed

text \<open>
  Claim C2. The supplier map is the fold of \<open>supplier_step\<close> over the links in their
  order: a further link is one more step on the map of the links before it. A step on a
  link of product \<open>pid\<close> stores the link when the product has no entry yet, replaces the
  entry only when the link is primary and the entry is not, and leaves every other product
  alone. So the entry of a product is its first primary link when it has one (a primary
  link after non-primary ones overrides them, the first of two primaries wins) and its first
  link otherwise (a non-primary link never displaces an earlier one).
\<close>

theorem supplier_resolution_fold:
  "supplier_map (rows @ [row]) = supplier_step (supplier_map rows) row
   \<and> supplier_step m row pid =
       (if fst row = pid
        then (case m pid of
                None \<Rightarrow> Some (entry_of row)
              | Some entry \<Rightarrow>
                  if row_is_primary row \<and> \<not> se_is_primary entry then Some (entry_of row)
                  else Some entry)
        else m pid)
   \<and> supplier_map rows pid = map_option entry_of (preferred (links_of pid rows))"
  by (simp add: supplier_map_def supplier_loop_snoc supplier_loop_apply supplier_step_apply)

subsection \<open>The sales aggregates\<close>

lemma dict_of_foldl:
  "foldl (\<lambda>m (k, v). m(k \<mapsto> v)) m rows = m ++ map_of (rev rows)"
  by (induction rows arbitrary: m) (auto simp: map_add_assoc [symmetric] map_add_upd)

lemma dict_of_map_of: "dict_of rows = map_of (rev rows)"
  by (simp add: dict_of_def dict_of_foldl)

lemma dict_of_keyed:
  "dict_of (map (\<lambda>k. (k, g k)) ks) k = (if k \<in> set ks then Some (g k) else None)"
  by (simp add: dict_of_map_of rev_map map_of_map_restrict restrict_map_def)

lemma sum_joined_row:
  assumes "pid \<in> set pids"
  shows "sum_list (map oi_quantity (filter (\<lambda>oi. oi_product_id oi = pid)
           (concat (map (\<lambda>odr. if A odr then if B odr then if oi_product_id x \<in> set pids
                                   then if D then [x] else [] else [] else [] else []) ys))))
         = sum_list (concat (map (\<lambda>odr. if A odr then if B odr then if oi_product_id x = pid
                                   then if D then [oi_quantity x] else [] else [] else [] else []) ys))"
proof (induct ys)
  case Nil
  show ?case by simp
next
  case (Cons a ys)
  have mem: "oi_product_id x \<in> set pids" if "oi_product_id x = pid"
    using assms that by blast
  show ?case
    apply (simp only: list.map concat.simps filter_append map_append sum_list_append Cons)
    apply (cases "A a"; cases "B a"; cases D; cases "oi_product_id x = pid";
        cases "oi_product_id x \<in> set pids")
    using assms apply (simp_all add: mem)
    done
qed

lemma sum_filter_rows:
  assumes "pid \<in> set pids"
  shows "sum_list (map oi_quantity (filter (\<lambda>oi. oi_product_id oi = pid)
           [oi. oi \<leftarrow> xs, odr \<leftarrow> ys, oi_order_id oi = o_id odr, o_company_id odr = cid,
                oi_product_id oi \<in> set pids, since \<le> oi_created_at oi]))
         = sum_list [oi_quantity oi. oi \<leftarrow> xs, odr \<leftarrow> ys, oi_order_id oi = o_id odr,
                o_company_id odr = cid, oi_product_id oi = pid, since \<le> oi_created_at oi]"
proof (induction xs)
  case Nil
  show ?case by simp
next
  case (Cons x xs)
  show ?case
    by (simp only: list.map concat.simps filter_append map_append sum_list_append
        sum_joined_row [OF assms] Cons.IH)
qed

lemma get_sales_since:
  "get_or_zero (dict_of (sales_since d cid pids since)) pid =
     (if pid \<in> set pids then units_sold d cid pid since else 0)"
proof -
  let ?rows = "sales_rows d cid pids since"
  let ?g = "\<lambda>p. sum_list (map oi_quantity (filter (\<lambda>oi. oi_product_id oi = p) ?rows))"
  have look: "dict_of (sales_since d cid pids since) pid =
      (if pid \<in> oi_product_id ` set ?rows then Some (?g pid) else None)"
    unfolding sales_since_def Let_def by (simp add: dict_of_keyed)
  have absent: "?g pid = 0" if "pid \<notin> oi_product_id ` set ?rows"
  proof -
    from that have "filter (\<lambda>oi. oi_product_id oi = pid) ?rows = []"
      by (auto simp: filter_empty_conv)
    then show ?thesis by simp
  qed
  have notin: "?g pid = 0" if "pid \<notin> set pids"
  proof -
    from that have "pid \<notin> oi_product_id ` set ?rows"
      by (auto simp: sales_rows_def)
    then show ?thesis by (rule absent)
  qed
  have "get_or_zero (dict_of (sales_since d cid pids since)) pid = ?g pid"
    using absent by (auto simp: get_or_zero_def look)
  moreover have "?g pid = units_sold d cid pid since" if "pid \<in> set pids"
    unfolding sales_rows_def units_sold_def by (rule sum_filter_rows [OF that])
  ultimately show ?thesis using notin by auto
qed

subsection \<open>The candidate rows and the alert loop\<close>

lemma candidate_pid: "(ivt, prd, wh) \<in> set rows \<Longrightarrow> p_id prd \<in> set (product_ids rows)"
  by (force simp: product_ids_def)

lemma candidate_rows_low:
  "(ivt, prd, wh) \<in> set (candidate_rows d cid) \<Longrightarrow>
   ivt \<in> set (inventories d) \<and> prd \<in> set (products d) \<and> wh \<in> set (warehouses d)
   \<and> i_warehouse_id ivt = w_id wh \<and> i_product_id ivt = p_id prd \<and> w_company_id wh = cid
   \<and> i_quantity ivt \<le> i_threshold ivt"
  by (auto simp: candidate_rows_def split: if_splits)

lemma low_stock_alerts_unfold:
  "low_stock_alerts cfg d now cid =
     (case company_get d cid of
        None \<Rightarrow> Inr (ErrorBody ''Company not found'', 404)
      | Some company \<Rightarrow>
          (case days_before now (SALES_AVG_WINDOW_DAYS cfg) of
             Inl err \<Rightarrow> Inl err
           | Inr avg_since \<Rightarrow>
               (case days_before now (SALES_ACTIVITY_WINDOW_DAYS cfg) of
                  Inl err \<Rightarrow> Inl err
                | Inr activity_since \<Rightarrow>
                    (case alerts_loop cfg (recent_sales_map d cid activity_since)
                            (avg_sales_map d cid avg_since) (company_supplier_map d cid)
                            (candidate_rows d cid) [] of
                       Inl err \<Rightarrow> Inl err
                     | Inr alerts \<Rightarrow> Inr (AlertsBody alerts (int (length alerts)), 200)))))"
  by (simp add: low_stock_alerts_def recent_sales_map_def avg_sales_map_def
      company_supplier_map_def Let_def split: option.splits sum.splits)

lemma low_stock_alerts_ok:
  assumes "low_stock_alerts cfg d now cid = Inr (AlertsBody alerts n, status)"
  obtains avg_since activity_since where
    "days_before now (SALES_AVG_WINDOW_DAYS cfg) = Inr avg_since"
    "days_before now (SALES_ACTIVITY_WINDOW_DAYS cfg) = Inr activity_since"
    "alerts_loop cfg (recent_sales_map d cid activity_since) (avg_sales_map d cid avg_since)
       (company_supplier_map d cid) (candidate_rows d cid) [] = Inr alerts"
    "n = int (length alerts)" "status = 200" "cid \<in> c_id ` set (companies d)"
proof -
  from assms have ex: "company_get d cid \<noteq> None"
    by (auto simp: low_stock_alerts_unfold split: option.splits)
  then have mem: "cid \<in> c_id ` set (companies d)"
    by (auto simp: company_get_def find_None_iff)
  from assms ex obtain avg_since where
    d1: "days_before now (SALES_AVG_WINDOW_DAYS cfg) = Inr avg_since"
    by (cases "days_before now (SALES_AVG_WINDOW_DAYS cfg)")
      (auto simp: low_stock_alerts_unfold split: option.splits)
  from assms ex d1 obtain activity_since where
    d2: "days_before now (SALES_ACTIVITY_WINDOW_DAYS cfg) = Inr activity_since"
    by (cases "days_before now (SALES_ACTIVITY_WINDOW_DAYS cfg)")
      (auto simp: low_stock_alerts_unfold split: option.splits)
  from assms ex d1 d2 have
    "alerts_loop cfg (recent_sales_map d cid activity_since) (avg_sales_map d cid avg_since)
       (company_supplier_map d cid) (candidate_rows d cid) [] = Inr alerts
     \<and> n = int (length alerts) \<and> status = 200"
    by (auto simp: low_stock_alerts_unfold split: sum.splits option.splits)
  with that [OF d1 d2] mem show ?thesis by blast
qed

lemma recent_lookup:
  "(ivt, prd, wh) \<in> set (candidate_rows d cid) \<Longrightarrow>
   get_or_zero (recent_sales_map d cid since) (p_id prd) = units_sold d cid (p_id prd) since"
  by (simp add: recent_sales_map_def recent_sales_def get_sales_since candidate_pid)

lemma avg_lookup:
  "(ivt, prd, wh) \<in> set (candidate_rows d cid) \<Longrightarrow>
   get_or_zero (avg_sales_map d cid since) (p_id prd) = units_sold d cid (p_id prd) since"
  by (simp add: avg_sales_map_def avg_sales_def get_sales_since candidate_pid)

lemma alert_of_Some:
  assumes "alert_of cfg rmap amap smap (ivt, prd, wh) = Inr (Some a)"
  shows "get_or_zero rmap (p_id prd) \<noteq> 0"
    and "alert_position a = row_position (ivt, prd, wh)"
    and "stockout_days cfg (i_quantity ivt) (get_or_zero amap (p_id prd)) = Inr (days_until_stockout a)"
    and "supplier a = supplier_info_of smap (p_id prd)"
  using assms
  by (auto simp: alert_of_def Let_def alert_position_def row_position_def
      split: if_splits sum.splits)

lemma alert_of_None:
  "alert_of cfg rmap amap smap (ivt, prd, wh) = Inr None \<Longrightarrow> get_or_zero rmap (p_id prd) = 0"
  by (auto simp: alert_of_def Let_def split: if_splits sum.splits)

lemma alerts_loop_member:
  "alerts_loop cfg rmap amap smap rows acc = Inr alerts \<Longrightarrow> a \<in> set alerts \<Longrightarrow>
   a \<in> set acc \<or> (\<exists>row \<in> set rows. alert_of cfg rmap amap smap row = Inr (Some a))"
proof (induction rows arbitrary: acc)
  case Nil
  then show ?case by simp
next
  case (Cons row rows)
  show ?case
  proof (cases "alert_of cfg rmap amap smap row")
    case (Inl err)
    with Cons.prems show ?thesis by simp
  next
    case (Inr res)
    show ?thesis
    proof (cases res)
      case None
      with Inr Cons.prems Cons.IH [of acc] show ?thesis by auto
    next
      case (Some b)
      with Inr Cons.prems Cons.IH [of "acc @ [b]"] show ?thesis by auto
    qed
  qed
qed

lemma alerts_loop_positions:
  "alerts_loop cfg rmap amap smap rows acc = Inr alerts \<Longrightarrow>
   map alert_position alerts =
     map alert_position acc
     @ map row_position (filter (\<lambda>(ivt, prd, wh). get_or_zero rmap (p_id prd) \<noteq> 0) rows)"
proof (induction rows arbitrary: acc)
  case Nil
  then show ?case by simp
next
  case (Cons row rows)
  obtain ivt prd wh where row: "row = (ivt, prd, wh)" by (cases row)
  show ?case
  proof (cases "alert_of cfg rmap amap smap row")
    case (Inl err)
    with Cons.prems show ?thesis by simp
  next
    case (Inr res)
    show ?thesis
    proof (cases res)
      case None
      with Inr Cons.prems Cons.IH [of acc] alert_of_None [of cfg rmap amap smap ivt prd wh]
      show ?thesis by (simp add: row)
    next
      case (Some a)
      with Inr Cons.prems Cons.IH [of "acc @ [a]"] alert_of_Some(1,2) [of cfg rmap amap smap ivt prd wh a]
      show ?thesis by (simp add: row)
    qed
  qed
qed

lemma alert_origin:
  assumes ok: "low_stock_alerts cfg d now cid = Inr (AlertsBody alerts n, status)"
    and a: "a \<in> set alerts"
  obtains ivt prd wh avg_since activity_since where
    "(ivt, prd, wh) \<in> set (candidate_rows d cid)"
    "days_before now (SALES_AVG_WINDOW_DAYS cfg) = Inr avg_since"
    "days_before now (SALES_ACTIVITY_WINDOW_DAYS cfg) = Inr activity_since"
    "units_sold d cid (p_id prd) activity_since \<noteq> 0"
    "alert_position a = row_position (ivt, prd, wh)"
    "stockout_days cfg (i_quantity ivt) (units_sold d cid (p_id prd) avg_since)
       = Inr (days_until_stockout a)"
    "supplier a = supplier_info_of (company_supplier_map d cid) (p_id prd)"
proof -
  from ok obtain avg_since activity_since where
    d1: "days_before now (SALES_AVG_WINDOW_DAYS cfg) = Inr avg_since" and
    d2: "days_before now (SALES_ACTIVITY_WINDOW_DAYS cfg) = Inr activity_since" and
    loop: "alerts_loop cfg (recent_sales_map d cid activity_since) (avg_sales_map d cid avg_since)
       (company_supplier_map d cid) (candidate_rows d cid) [] = Inr alerts"
    by (rule low_stock_alerts_ok)
  from alerts_loop_member [OF loop a] obtain row where
    row: "row \<in> set (candidate_rows d cid)" and
    al: "alert_of cfg (recent_sales_map d cid activity_since) (avg_sales_map d cid avg_since)
       (company_supplier_map d cid) row = Inr (Some a)"
    by auto
  obtain ivt prd wh where r: "row = (ivt, prd, wh)" by (cases row)
  note facts = alert_of_Some [OF al [unfolded r]]
  from row r have mem: "(ivt, prd, wh) \<in> set (candidate_rows d cid)" by simp
  show ?thesis
    using that [OF mem d1 d2] facts recent_lookup [OF mem] avg_lookup [OF mem] by simp
qed

subsection \<open>The example store\<close>

lemma example_run:
  "low_stock_alerts default_config example_db 63900864000000000 1
     = Inr (AlertsBody [example_alert_w1, example_alert_w2] 2, 200)"
  by code_simp

lemma example_run_later:
  "low_stock_alerts default_config example_db 63905270400000000 1 = Inr (AlertsBody [] 0, 200)"
  by code_simp

lemma example_since:
  "days_before 63900864000000000 (SALES_AVG_WINDOW_DAYS default_config) = Inr 63898272000000000"
  "days_before 63900864000000000 (SALES_ACTIVITY_WINDOW_DAYS default_config) = Inr 63895680000000000"
  by code_simp+

lemma example_units:
  "units_sold example_db 1 2 63895680000000000 = 0"
  "units_sold example_db 1 1 63895680000000000 = 20"
  by code_simp+



lemma no_supplier_run:
  "low_stock_alerts default_config no_supplier_db 63900864000000000 1
     = Inr (AlertsBody
         [example_alert_w1 \<lparr>supplier := None\<rparr>, example_alert_w2 \<lparr>supplier := None\<rparr>] 2, 200)"
  by code_simp


lemma idle_run:
  "candidate_rows idle_db 1 = []"
  by code_simp

lemma later_rows:
  "list_all (\<lambda>(ivt, prd, wh). units_sold example_db 1 (p_id prd) 63900086400000000 = 0)
     (candidate_rows example_db 1)"
  by code_simp

lemma later_since:
  "days_before 63905270400000000 (SALES_AVG_WINDOW_DAYS default_config) = Inr 63902678400000000"
  "days_before 63905270400000000 (SALES_ACTIVITY_WINDOW_DAYS default_config) = Inr 63900086400000000"
  by code_simp+

subsection \<open>Which positions are alerted, and in which order\<close>

text \<open>
  Claim C3. When the units of a product sold by the company inside the activity window sum
  to zero (no order item at all, or quantities that cancel), no alert of the response
  carries that product, whatever the stock of its positions.
\<close>

theorem no_alert_without_recent_sales:
  assumes "low_stock_alerts cfg d now company_id = Inr (AlertsBody alerts n, status)"
    and "days_before now (SALES_ACTIVITY_WINDOW_DAYS cfg) = Inr activity_since"
    and "units_sold d company_id pid activity_since = 0"
  shows "\<forall>a \<in> set alerts. product_id a \<noteq> pid"
proof
  fix a assume a: "a \<in> set alerts"
  from assms(1) a obtain ivt prd wh act where
    act: "days_before now (SALES_ACTIVITY_WINDOW_DAYS cfg) = Inr act" and
    sold: "units_sold d company_id (p_id prd) act \<noteq> 0" and
    pos: "alert_position a = row_position (ivt, prd, wh)"
    by (rule alert_origin)
  from act assms(2) have "act = activity_since" by simp
  moreover from pos have "product_id a = p_id prd"
    by (simp add: alert_position_def row_position_def)
  ultimately show "product_id a \<noteq> pid" using sold assms(3) by auto
qed

text \<open>
  In the example store product 2 has no sales, and neither alert of the response is for
  product 2, although its position in warehouse 1 is low.
\<close>

theorem no_alert_without_recent_sales_witness:
  "low_stock_alerts default_config example_db 63900864000000000 1
     = Inr (AlertsBody [example_alert_w1, example_alert_w2] 2, 200)
   \<and> days_before 63900864000000000 (SALES_ACTIVITY_WINDOW_DAYS default_config)
       = Inr 63895680000000000
   \<and> units_sold example_db 1 2 63895680000000000 = 0
   \<and> product_id example_alert_w1 \<noteq> 2 \<and> product_id example_alert_w2 \<noteq> 2"
  using no_alert_without_recent_sales [OF example_run example_since(2) example_units(1)]
    example_run example_since(2) example_units(1)
  by simp

text \<open>
  Claim C4. Every candidate row is an inventory row with \<open>quantity \<le> threshold\<close>, and every
  alert of the response copies its stock and threshold from a candidate row: a position
  whose quantity exceeds its threshold is never alerted.
\<close>

theorem alerts_only_for_low_positions:
  assumes "low_stock_alerts cfg d now company_id = Inr (AlertsBody alerts n, status)"
  shows "(\<forall>(ivt, prd, wh) \<in> set (candidate_rows d company_id).
            ivt \<in> set (inventories d) \<and> i_quantity ivt \<le> i_threshold ivt)
         \<and> (\<forall>a \<in> set alerts.
               current_stock a \<le> threshold a
               \<and> (\<exists>row \<in> set (candidate_rows d company_id). alert_position a = row_position row))"
proof (intro conjI ballI)
  fix row assume row: "row \<in> set (candidate_rows d company_id)"
  obtain ivt prd wh where "row = (ivt, prd, wh)" by (cases row)
  with row candidate_rows_low [of ivt prd wh d company_id]
  show "case row of (ivt, prd, wh) \<Rightarrow>
      ivt \<in> set (inventories d) \<and> i_quantity ivt \<le> i_threshold ivt"
    by simp
next
  fix a assume a: "a \<in> set alerts"
  from assms a obtain ivt prd wh where
    row: "(ivt, prd, wh) \<in> set (candidate_rows d company_id)" and
    pos: "alert_position a = row_position (ivt, prd, wh)"
    by (rule alert_origin)
  from candidate_rows_low [OF row] pos show "current_stock a \<le> threshold a"
    by (simp add: alert_position_def row_position_def)
  from row pos show "\<exists>row \<in> set (candidate_rows d company_id). alert_position a = row_position row"
    by blast
qed

text \<open>
  In the example store the position of product 2 in warehouse 2 holds 9 units over a
  threshold of 3; it is no candidate, and both alerts are at or below their threshold.
\<close>

theorem alerts_only_for_low_positions_witness:
  "low_stock_alerts default_config example_db 63900864000000000 1
     = Inr (AlertsBody [example_alert_w1, example_alert_w2] 2, 200)
   \<and> list_all (\<lambda>(ivt, prd, wh). ivt \<in> set (inventories example_db)
                  \<and> i_quantity ivt \<le> i_threshold ivt) (candidate_rows example_db 1)
   \<and> current_stock example_alert_w1 \<le> threshold example_alert_w1
   \<and> current_stock example_alert_w2 \<le> threshold example_alert_w2"
  using alerts_only_for_low_positions [OF example_run] example_run
  by (simp add: list_all_iff)

text \<open>
  Claim C7. The alerts of the response are, in this order, the candidate rows whose product
  sold a non-zero number of units inside the activity window: the loop drops the other
  rows and sorts nothing. The count of the response is the length of the list.
\<close>

theorem alerts_in_candidate_order:
  assumes "low_stock_alerts cfg d now company_id = Inr (AlertsBody alerts n, status)"
    and "days_before now (SALES_ACTIVITY_WINDOW_DAYS cfg) = Inr activity_since"
  shows "map alert_position alerts =
           map row_position
             (filter (\<lambda>(ivt, prd, wh). units_sold d company_id (p_id prd) activity_since \<noteq> 0)
                (candidate_rows d company_id))
         \<and> n = int (length alerts)"
proof -
  from assms(1) obtain avg_since act where
    act: "days_before now (SALES_ACTIVITY_WINDOW_DAYS cfg) = Inr act" and
    loop: "alerts_loop cfg (recent_sales_map d company_id act) (avg_sales_map d company_id avg_since)
       (company_supplier_map d company_id) (candidate_rows d company_id) [] = Inr alerts" and
    n: "n = int (length alerts)"
    by (rule low_stock_alerts_ok)
  from act assms(2) have eq: "act = activity_since" by simp
  have "filter (\<lambda>(ivt, prd, wh). get_or_zero (recent_sales_map d company_id act) (p_id prd) \<noteq> 0)
          (candidate_rows d company_id)
        = filter (\<lambda>(ivt, prd, wh). units_sold d company_id (p_id prd) activity_since \<noteq> 0)
          (candidate_rows d company_id)"
    by (rule filter_cong) (auto simp: recent_lookup eq)
  with alerts_loop_positions [OF loop] n show ?thesis by simp
qed

text \<open>
  In the example store the candidates are fetched as product 1 in warehouse 1, product 2
  in warehouse 1, product 1 in warehouse 2; the alerts are the first and the third.
\<close>

theorem alerts_in_candidate_order_witness:
  "low_stock_alerts default_config example_db 63900864000000000 1
     = Inr (AlertsBody [example_alert_w1, example_alert_w2] 2, 200)
   \<and> days_before 63900864000000000 (SALES_ACTIVITY_WINDOW_DAYS default_config)
       = Inr 63895680000000000
   \<and> map alert_position [example_alert_w1, example_alert_w2] =
       map row_position
         (filter (\<lambda>(ivt, prd, wh). units_sold example_db 1 (p_id prd) 63895680000000000 \<noteq> 0)
            (candidate_rows example_db 1))
   \<and> (2::int) = int (length [example_alert_w1, example_alert_w2])"
  using alerts_in_candidate_order [OF example_run example_since(2)] example_run example_since(2)
  by simp

subsection \<open>The clock\<close>

lemma joined_units_guard:
  "sum_list (concat (map (\<lambda>odr. if A odr then if B odr then if C then if D then [v] else []
                              else [] else [] else []) ys))
   = (if D then sum_list (concat (map (\<lambda>odr. if A odr then if B odr then if C then [v] else []
                              else [] else []) ys)) else (0::int))"
  by (induction ys) auto

lemma units_sold_windowed:
  "units_sold d cid pid since =
     sum_list (map (matched_units cid pid (orders d))
       (filter (\<lambda>oi. since \<le> oi_created_at oi) (order_items d)))"
proof -
  have "sum_list [oi_quantity oi. oi \<leftarrow> xs, odr \<leftarrow> ys, oi_order_id oi = o_id odr,
            o_company_id odr = cid, oi_product_id oi = pid, since \<le> oi_created_at oi]
      = sum_list (map (matched_units cid pid ys) (filter (\<lambda>oi. since \<le> oi_created_at oi) xs))"
    for xs ys
  proof (induction xs)
    case Nil
    show ?case by simp
  next
    case (Cons x xs)
    show ?case
      by (simp only: list.map concat.simps sum_list_append joined_units_guard Cons.IH
          filter.simps matched_units_def)
        (simp add: matched_units_def)
  qed
  then show ?thesis by (simp only: units_sold_def)
qed

lemma matched_units_sum:
  "matched_units cid pid ys oi =
     sum_list (map (\<lambda>odr. if oi_order_id oi = o_id odr \<and> o_company_id odr = cid
                            \<and> oi_product_id oi = pid then oi_quantity oi else 0) ys)"
  unfolding matched_units_def by (induction ys) auto

lemma sum_list_map_mset:
  fixes k :: "'a \<Rightarrow> int"
  assumes "mset xs = mset ys"
  shows "sum_list (map k xs) = sum_list (map k ys)"
proof -
  have "sum_list (map k xs) = sum_mset (image_mset k (mset xs))"
    by (simp only: sum_mset_sum_list [symmetric] mset_map)
  also have "\<dots> = sum_mset (image_mset k (mset ys))" by (simp only: assms)
  also have "\<dots> = sum_list (map k ys)"
    by (simp only: sum_mset_sum_list [symmetric] mset_map)
  finally show ?thesis .
qed

lemma units_sold_same_window_contents:
  assumes "mset (orders d1) = mset (orders d2)"
    and "mset (filter (\<lambda>oi. s1 \<le> oi_created_at oi) (order_items d1))
         = mset (filter (\<lambda>oi. s2 \<le> oi_created_at oi) (order_items d2))"
  shows "units_sold d1 cid pid s1 = units_sold d2 cid pid s2"
proof -
  have "matched_units cid pid (orders d1) = matched_units cid pid (orders d2)"
    by (rule ext) (simp only: matched_units_sum sum_list_map_mset [OF assms(1)])
  then show ?thesis
    by (simp only: units_sold_windowed sum_list_map_mset [OF assms(2)])
qed

lemma alert_of_same_lookups:
  assumes "get_or_zero rmap (p_id prd) = get_or_zero rmap' (p_id prd)"
    and "get_or_zero amap (p_id prd) = get_or_zero amap' (p_id prd)"
  shows "alert_of cfg rmap amap smap (ivt, prd, wh) = alert_of cfg rmap' amap' smap (ivt, prd, wh)"
  using assms by (simp add: alert_of_def Let_def)

lemma alerts_loop_same_alerts:
  assumes "\<forall>row \<in> set rows. alert_of cfg rmap amap smap row = alert_of cfg rmap' amap' smap row"
  shows "alerts_loop cfg rmap amap smap rows acc = alerts_loop cfg rmap' amap' smap rows acc"
  using assms by (induction rows arbitrary: acc) (simp_all split: sum.splits option.splits)

lemma archived_run_inputs:
  "candidate_rows example_db 1 = candidate_rows archived_db 1"
  "suppliers_q example_db (product_ids (candidate_rows example_db 1))
     = suppliers_q archived_db (product_ids (candidate_rows archived_db 1))"
  by code_simp+

lemma reversed_run:
  "low_stock_alerts default_config reversed_db 63900864000000000 1
     = Inr (AlertsBody [example_alert_w2, example_alert_w1] 2, 200)"
  by code_simp

text \<open>
  Claim C9, as the code has it. At instants from which both windows can be subtracted, the
  response is determined by the configuration, by whether the company exists, by the
  candidate rows and the supplier links in the order in which the store returns them, by
  the orders, and by the order items that lie inside the averaging window and inside the
  activity window at the instant read from the clock; orders and order items count in
  whatever order the store returns them. Two invocations that agree on these, on two stores
  and at two instants, give the same response.
\<close>

theorem same_inputs_same_response:
  assumes "days_before now1 (SALES_AVG_WINDOW_DAYS cfg) = Inr avg1"
    and "days_before now2 (SALES_AVG_WINDOW_DAYS cfg) = Inr avg2"
    and "days_before now1 (SALES_ACTIVITY_WINDOW_DAYS cfg) = Inr act1"
    and "days_before now2 (SALES_ACTIVITY_WINDOW_DAYS cfg) = Inr act2"
    and "(company_id \<in> c_id ` set (companies d1)) = (company_id \<in> c_id ` set (companies d2))"
    and "candidate_rows d1 company_id = candidate_rows d2 company_id"
    and "suppliers_q d1 (product_ids (candidate_rows d1 company_id))
         = suppliers_q d2 (product_ids (candidate_rows d2 company_id))"
    and "mset (orders d1) = mset (orders d2)"
    and "mset (filter (\<lambda>oi. avg1 \<le> oi_created_at oi) (order_items d1))
         = mset (filter (\<lambda>oi. avg2 \<le> oi_created_at oi) (order_items d2))"
    and "mset (filter (\<lambda>oi. act1 \<le> oi_created_at oi) (order_items d1))
         = mset (filter (\<lambda>oi. act2 \<le> oi_created_at oi) (order_items d2))"
  shows "low_stock_alerts cfg d1 now1 company_id = low_stock_alerts cfg d2 now2 company_id"
proof -
  let ?rows = "candidate_rows d2 company_id"
  have sold_avg: "units_sold d1 company_id pid avg1 = units_sold d2 company_id pid avg2" for pid
    using assms(8,9) by (rule units_sold_same_window_contents)
  have sold_act: "units_sold d1 company_id pid act1 = units_sold d2 company_id pid act2" for pid
    using assms(8,10) by (rule units_sold_same_window_contents)
  have smap: "company_supplier_map d1 company_id = company_supplier_map d2 company_id"
    by (simp only: company_supplier_map_def assms(7))
  have "alert_of cfg (recent_sales_map d1 company_id act1) (avg_sales_map d1 company_id avg1)
          (company_supplier_map d2 company_id) row
        = alert_of cfg (recent_sales_map d2 company_id act2) (avg_sales_map d2 company_id avg2)
          (company_supplier_map d2 company_id) row"
    if row: "row \<in> set ?rows" for row
  proof -
    obtain ivt prd wh where r: "row = (ivt, prd, wh)" by (cases row)
    with row have m2: "(ivt, prd, wh) \<in> set (candidate_rows d2 company_id)" by simp
    with assms(6) have m1: "(ivt, prd, wh) \<in> set (candidate_rows d1 company_id)" by simp
    show ?thesis unfolding r
      by (rule alert_of_same_lookups)
        (simp_all only: recent_lookup [OF m1] recent_lookup [OF m2] avg_lookup [OF m1]
          avg_lookup [OF m2] sold_avg sold_act)
  qed
  then have loop:
    "alerts_loop cfg (recent_sales_map d1 company_id act1) (avg_sales_map d1 company_id avg1)
        (company_supplier_map d1 company_id) (candidate_rows d1 company_id) []
     = alerts_loop cfg (recent_sales_map d2 company_id act2) (avg_sales_map d2 company_id avg2)
        (company_supplier_map d2 company_id) (candidate_rows d2 company_id) []"
    unfolding smap assms(6) by (intro alerts_loop_same_alerts) blast
  from assms(5) have "(company_get d1 company_id = None) = (company_get d2 company_id = None)"
    by (simp add: company_get_None)
  with loop assms(1-4) show ?thesis
    by (cases "company_get d1 company_id"; cases "company_get d2 company_id")
      (simp_all add: low_stock_alerts_unfold)
qed

text \<open>
  The example store, and one day later the store with one more order item older than both
  windows: the tables and the instants differ, the inputs of the theorem agree, and so do
  the responses.
\<close>

theorem same_inputs_same_response_witness:
  "days_before 63900864000000000 (SALES_AVG_WINDOW_DAYS default_config) = Inr 63898272000000000
   \<and> days_before 63900950400000000 (SALES_AVG_WINDOW_DAYS default_config) = Inr 63898358400000000
   \<and> days_before 63900864000000000 (SALES_ACTIVITY_WINDOW_DAYS default_config)
       = Inr 63895680000000000
   \<and> days_before 63900950400000000 (SALES_ACTIVITY_WINDOW_DAYS default_config)
       = Inr 63895766400000000
   \<and> (1 \<in> c_id ` set (companies example_db)) = (1 \<in> c_id ` set (companies archived_db))
   \<and> candidate_rows example_db 1 = candidate_rows archived_db 1
   \<and> suppliers_q example_db (product_ids (candidate_rows example_db 1))
       = suppliers_q archived_db (product_ids (candidate_rows archived_db 1))
   \<and> mset (orders example_db) = mset (orders archived_db)
   \<and> mset (filter (\<lambda>oi. 63898272000000000 \<le> oi_created_at oi) (order_items example_db))
       = mset (filter (\<lambda>oi. 63898358400000000 \<le> oi_created_at oi) (order_items archived_db))
   \<and> mset (filter (\<lambda>oi. 63895680000000000 \<le> oi_created_at oi) (order_items example_db))
       = mset (filter (\<lambda>oi. 63895766400000000 \<le> oi_created_at oi) (order_items archived_db))
   \<and> order_items example_db \<noteq> order_items archived_db
   \<and> low_stock_alerts default_config example_db 63900864000000000 1
       = low_stock_alerts default_config archived_db 63900950400000000 1"
proof -
  have d1: "days_before 63900864000000000 (SALES_AVG_WINDOW_DAYS default_config)
      = Inr 63898272000000000" by code_simp
  have d2: "days_before 63900950400000000 (SALES_AVG_WINDOW_DAYS default_config)
      = Inr 63898358400000000" by code_simp
  have d3: "days_before 63900864000000000 (SALES_ACTIVITY_WINDOW_DAYS default_config)
      = Inr 63895680000000000" by code_simp
  have d4: "days_before 63900950400000000 (SALES_ACTIVITY_WINDOW_DAYS default_config)
      = Inr 63895766400000000" by code_simp
  have c: "(1 \<in> c_id ` set (companies example_db)) = (1 \<in> c_id ` set (companies archived_db))"
    by (simp add: archived_db_def)
  have o: "mset (orders example_db) = mset (orders archived_db)"
    by (simp add: archived_db_def)
  have i1: "mset (filter (\<lambda>oi. 63898272000000000 \<le> oi_created_at oi) (order_items example_db))
       = mset (filter (\<lambda>oi. 63898358400000000 \<le> oi_created_at oi) (order_items archived_db))"
    by (simp add: archived_db_def example_db_def)
  have i2: "mset (filter (\<lambda>oi. 63895680000000000 \<le> oi_created_at oi) (order_items example_db))
       = mset (filter (\<lambda>oi. 63895766400000000 \<le> oi_created_at oi) (order_items archived_db))"
    by (simp add: archived_db_def example_db_def)
  have ne: "order_items example_db \<noteq> order_items archived_db"
    by (simp add: archived_db_def example_db_def)
  from same_inputs_same_response
    [OF d1 d2 d3 d4 c archived_run_inputs(1) archived_run_inputs(2) o i1 i2]
    d1 d2 d3 d4 c archived_run_inputs o i1 i2 ne
  show ?thesis by blast
qed

text \<open>
  Claim C9, as stated, fails: on the unchanged example store the request made 10 days
  after the sale gets two alerts and the request made 61 days after it gets none; and on
  a store that returns the same inventory rows in the reverse order the two alerts come in
  the reverse order.
\<close>

theorem clock_and_row_order_change_response:
  "low_stock_alerts default_config example_db 63900864000000000 1
     = Inr (AlertsBody [example_alert_w1, example_alert_w2] 2, 200)
   \<and> low_stock_alerts default_config example_db 63905270400000000 1
     = Inr (AlertsBody [] 0, 200)
   \<and> low_stock_alerts default_config example_db 63900864000000000 1
     \<noteq> low_stock_alerts default_config example_db 63905270400000000 1
   \<and> mset (inventories reversed_db) = mset (inventories example_db)
   \<and> low_stock_alerts default_config reversed_db 63900864000000000 1
     = Inr (AlertsBody [example_alert_w2, example_alert_w1] 2, 200)
   \<and> low_stock_alerts default_config reversed_db 63900864000000000 1
     \<noteq> low_stock_alerts default_config example_db 63900864000000000 1"
proof -
  have "mset (inventories reversed_db) = mset (inventories example_db)"
    by (simp add: reversed_db_def)
  moreover have "example_alert_w2 \<noteq> example_alert_w1"
    by (simp add: example_alert_w1_def example_alert_w2_def)
  ultimately show ?thesis
    by (simp add: example_run example_run_later reversed_run)
qed

subsection \<open>Two positions of one product\<close>

lemma stockout_days_None_iff:
  assumes "stockout_days cfg q sold = Inr r"
  shows "r = None \<longleftrightarrow> (\<exists>avg. avg_daily_sales cfg sold = Inr avg \<and> \<not> float_gt_zero avg)"
  using assms by (auto simp: stockout_days_def split: sum.splits if_splits)

text \<open>
  Claim C10, as the code has it. Two alerts of one response for the same product carry the
  same supplier, and their projections are both \<open>None\<close> or both a number; the numbers are
  equal when the two positions hold the same stock, since the projection divides the stock of
  the position by the velocity of the product.
\<close>

theorem same_product_same_supplier:
  assumes "low_stock_alerts cfg d now company_id = Inr (AlertsBody alerts n, status)"
    and "a \<in> set alerts" and "b \<in> set alerts" and "product_id a = product_id b"
  shows "supplier a = supplier b
         \<and> (days_until_stockout a = None \<longleftrightarrow> days_until_stockout b = None)
         \<and> (current_stock a = current_stock b \<longrightarrow> days_until_stockout a = days_until_stockout b)"
proof -
  from assms(1,2) obtain ia pa wa avg_a where
    a1: "days_before now (SALES_AVG_WINDOW_DAYS cfg) = Inr avg_a" and
    a2: "alert_position a = row_position (ia, pa, wa)" and
    a3: "stockout_days cfg (i_quantity ia) (units_sold d company_id (p_id pa) avg_a)
       = Inr (days_until_stockout a)" and
    a4: "supplier a = supplier_info_of (company_supplier_map d company_id) (p_id pa)"
    by (rule alert_origin)
  from assms(1,3) obtain ib pb wb avg_b where
    b1: "days_before now (SALES_AVG_WINDOW_DAYS cfg) = Inr avg_b" and
    b2: "alert_position b = row_position (ib, pb, wb)" and
    b3: "stockout_days cfg (i_quantity ib) (units_sold d company_id (p_id pb) avg_b)
       = Inr (days_until_stockout b)" and
    b4: "supplier b = supplier_info_of (company_supplier_map d company_id) (p_id pb)"
    by (rule alert_origin)
  from a1 b1 have avg: "avg_b = avg_a" by simp
  from a2 b2 assms(4) have pid: "p_id pb = p_id pa"
    by (simp add: alert_position_def row_position_def)
  from a2 b2 have stock: "i_quantity ia = current_stock a" "i_quantity ib = current_stock b"
    by (simp_all add: alert_position_def row_position_def)
  from a4 b4 pid have "supplier a = supplier b" by simp
  moreover from stockout_days_None_iff [OF a3] stockout_days_None_iff [OF b3]
  have "days_until_stockout a = None \<longleftrightarrow> days_until_stockout b = None"
    by (simp add: avg pid)
  moreover from a3 b3 have
    "current_stock a = current_stock b \<longrightarrow> days_until_stockout a = days_until_stockout b"
    by (auto simp: avg pid stock)
  ultimately show ?thesis by blast
qed

text \<open>
  The two alerts of the example response are for product 1 and carry the same supplier.
\<close>

theorem same_product_same_supplier_witness:
  "low_stock_alerts default_config example_db 63900864000000000 1
     = Inr (AlertsBody [example_alert_w1, example_alert_w2] 2, 200)
   \<and> example_alert_w1 \<in> set [example_alert_w1, example_alert_w2]
   \<and> example_alert_w2 \<in> set [example_alert_w1, example_alert_w2]
   \<and> product_id example_alert_w1 = product_id example_alert_w2
   \<and> supplier example_alert_w1 = supplier example_alert_w2
   \<and> (days_until_stockout example_alert_w1 = None) = (days_until_stockout example_alert_w2 = None)"
proof -
  have m1: "example_alert_w1 \<in> set [example_alert_w1, example_alert_w2]" by simp
  have m2: "example_alert_w2 \<in> set [example_alert_w1, example_alert_w2]" by simp
  have p: "product_id example_alert_w1 = product_id example_alert_w2"
    by (simp add: example_alert_w1_def example_alert_w2_def)
  from same_product_same_supplier [OF example_run m1 m2 p] example_run m1 m2 p
  show ?thesis by simp
qed

text \<open>
  Claim C10, as stated, fails: the two alerts of the example response are for the same
  product, with 8 days for the 5 units of warehouse 1 and 15 days for the 10 units of
  warehouse 2.
\<close>

theorem same_product_different_days:
  "low_stock_alerts default_config example_db 63900864000000000 1
     = Inr (AlertsBody [example_alert_w1, example_alert_w2] 2, 200)
   \<and> product_id example_alert_w1 = product_id example_alert_w2
   \<and> days_until_stockout example_alert_w1 = Some 8
   \<and> days_until_stockout example_alert_w2 = Some 15
   \<and> days_until_stockout example_alert_w1 \<noteq> days_until_stockout example_alert_w2"
  by (simp add: example_run example_alert_w1_def example_alert_w2_def)

subsection \<open>The stockout projection\<close>

lemma days_before_Inr:
  assumes "days_before now n = Inr t"
  shows "\<bar>n\<bar> \<le> 999999999" and "t = now - n * 86400000000"
  using assms
  by (auto simp: days_before_def timedelta_days_def datetime_sub_def Let_def split: if_splits)


lemma stockout_days_total:
  assumes "SALES_AVG_WINDOW_DAYS cfg \<le> 999999999" and "\<bar>s\<bar> < 2 ^ 63" and "\<bar>q\<bar> < 2 ^ 63"
  shows "\<exists>r. stockout_days cfg q s = Inr r"
proof -
  let ?w = "max (SALES_AVG_WINDOW_DAYS cfg) 1"
  have w: "1 \<le> ?w" "?w \<le> 999999999" using assms(1) by simp_all
  from projection_total [OF w assms(2,3)] obtain avg where
    avg: "int_truediv s ?w = Inr avg"
    and x: "float_gt_zero avg \<longrightarrow> (\<exists>x. int_float_truediv q avg = Inr x)" by blast
  show ?thesis
  proof (cases "float_gt_zero avg")
    case True
    with x obtain y where "int_float_truediv q avg = Inr y" by blast
    with avg True show ?thesis by (simp add: stockout_days_def avg_daily_sales_def)
  next
    case False
    with avg show ?thesis by (simp add: stockout_days_def avg_daily_sales_def)
  qed
qed





subsection \<open>Outcomes that are not errors\<close>

lemma alerts_loop_total:
  assumes "\<forall>row \<in> set rows. \<exists>r. alert_of cfg rmap amap smap row = Inr r"
  shows "\<exists>alerts. alerts_loop cfg rmap amap smap rows acc = Inr alerts"
  using assms
proof (induction rows arbitrary: acc)
  case Nil
  show ?case by simp
next
  case (Cons row rows)
  from Cons.prems obtain r where r: "alert_of cfg rmap amap smap row = Inr r" by auto
  from Cons.prems have rest: "\<forall>row \<in> set rows. \<exists>r. alert_of cfg rmap amap smap row = Inr r"
    by simp
  show ?case
  proof (cases r)
    case None
    with r Cons.IH [OF rest, of acc] show ?thesis by simp
  next
    case (Some a)
    with r Cons.IH [OF rest, of "acc @ [a]"] show ?thesis by simp
  qed
qed

lemma alert_of_total:
  assumes "\<exists>r. stockout_days cfg (i_quantity ivt) (get_or_zero amap (p_id prd)) = Inr r"
  shows "\<exists>r. alert_of cfg rmap amap smap (ivt, prd, wh) = Inr r"
  using assms by (auto simp: alert_of_def Let_def)

lemma no_links:
  assumes "\<forall>ps \<in> set (product_suppliers d). ps_product_id ps \<noteq> pid"
  shows "links_of pid (suppliers_q d pids) = []"
proof -
  have "fst row \<noteq> pid" if "row \<in> set (suppliers_q d pids)" for row
    using that assms by (auto simp: suppliers_q_def split: if_splits)
  then show ?thesis by (simp add: links_of_def filter_empty_conv)
qed

lemma no_links_no_supplier:
  assumes "\<forall>ps \<in> set (product_suppliers d). ps_product_id ps \<noteq> pid"
  shows "supplier_info_of (company_supplier_map d cid) pid = None"
  by (simp add: supplier_info_of_def company_supplier_map_def supplier_map_def
      supplier_loop_apply no_links [OF assms] preferred_def)

text \<open>
  Claim C6. For an existing company, on a clock from which both windows can be subtracted,
  the outcomes of the business rules are responses with status 200, not exceptions: without
  candidate rows, and when no candidate product has activity-window sales, the response is
  the empty list with the count 0; and when stock levels and aggregated sales fit 64-bit
  integers the view raises nothing and answers with a list of alerts and its length, in which
  an alert whose product has no supplier link carries no supplier.
\<close>

theorem business_outcomes_are_not_errors:
  assumes "company_id \<in> c_id ` set (companies d)"
    and "days_before now (SALES_AVG_WINDOW_DAYS cfg) = Inr avg_since"
    and "days_before now (SALES_ACTIVITY_WINDOW_DAYS cfg) = Inr activity_since"
  shows "(candidate_rows d company_id = []
            \<longrightarrow> low_stock_alerts cfg d now company_id = Inr (AlertsBody [] 0, 200))
         \<and> ((\<forall>(ivt, prd, wh) \<in> set (candidate_rows d company_id).
                units_sold d company_id (p_id prd) activity_since = 0)
            \<longrightarrow> low_stock_alerts cfg d now company_id = Inr (AlertsBody [] 0, 200))
         \<and> ((\<forall>(ivt, prd, wh) \<in> set (candidate_rows d company_id).
                \<bar>i_quantity ivt\<bar> < 2 ^ 63
                \<and> \<bar>units_sold d company_id (p_id prd) avg_since\<bar> < 2 ^ 63)
            \<longrightarrow> (\<exists>alerts.
                   low_stock_alerts cfg d now company_id
                     = Inr (AlertsBody alerts (int (length alerts)), 200)
                   \<and> (\<forall>a \<in> set alerts.
                         (\<forall>ps \<in> set (product_suppliers d). ps_product_id ps \<noteq> product_id a)
                         \<longrightarrow> supplier a = None)))"
proof -
  let ?rmap = "recent_sales_map d company_id activity_since"
  let ?amap = "avg_sales_map d company_id avg_since"
  let ?smap = "company_supplier_map d company_id"
  let ?rows = "candidate_rows d company_id"
  from assms(1) have ex: "company_get d company_id \<noteq> None" by (simp add: company_get_None)
  have run: "low_stock_alerts cfg d now company_id
      = Inr (AlertsBody alerts (int (length alerts)), 200)"
    if "alerts_loop cfg ?rmap ?amap ?smap ?rows [] = Inr alerts" for alerts
    using ex assms(2,3) that by (auto simp: low_stock_alerts_unfold)
  have skipped: "alerts_loop cfg ?rmap ?amap ?smap ?rows [] = Inr []"
    if z: "\<forall>(ivt, prd, wh) \<in> set ?rows. units_sold d company_id (p_id prd) activity_since = 0"
  proof -
    have "\<exists>r. alert_of cfg ?rmap ?amap ?smap row = Inr r" if row: "row \<in> set ?rows" for row
    proof -
      obtain ivt prd wh where r: "row = (ivt, prd, wh)" by (cases row)
      with row have mem: "(ivt, prd, wh) \<in> set ?rows" by simp
      with z have "units_sold d company_id (p_id prd) activity_since = 0" by auto
      then show ?thesis unfolding r by (simp add: alert_of_def recent_lookup [OF mem])
    qed
    then obtain alerts where loop: "alerts_loop cfg ?rmap ?amap ?smap ?rows [] = Inr alerts"
      using alerts_loop_total [of ?rows cfg ?rmap ?amap ?smap "[]"] by blast
    have "filter (\<lambda>(ivt, prd, wh). get_or_zero ?rmap (p_id prd) \<noteq> 0) ?rows = []"
      using z by (auto simp: filter_empty_conv recent_lookup)
    with alerts_loop_positions [OF loop] have "alerts = []" by simp
    with loop show ?thesis by simp
  qed
  have c1: "low_stock_alerts cfg d now company_id = Inr (AlertsBody [] 0, 200)"
    if "?rows = []"
    using run [of "[]"] that by simp
  have c2: "low_stock_alerts cfg d now company_id = Inr (AlertsBody [] 0, 200)"
    if "\<forall>(ivt, prd, wh) \<in> set ?rows. units_sold d company_id (p_id prd) activity_since = 0"
    using run [OF skipped [OF that]] by simp
  have c3: "\<exists>alerts.
      low_stock_alerts cfg d now company_id = Inr (AlertsBody alerts (int (length alerts)), 200)
      \<and> (\<forall>a \<in> set alerts.
            (\<forall>ps \<in> set (product_suppliers d). ps_product_id ps \<noteq> product_id a)
            \<longrightarrow> supplier a = None)"
    if bounded: "\<forall>(ivt, prd, wh) \<in> set ?rows.
        \<bar>i_quantity ivt\<bar> < 2 ^ 63 \<and> \<bar>units_sold d company_id (p_id prd) avg_since\<bar> < 2 ^ 63"
  proof -
    from days_before_Inr(1) [OF assms(2)] have win: "SALES_AVG_WINDOW_DAYS cfg \<le> 999999999"
      by simp
    have "\<exists>r. alert_of cfg ?rmap ?amap ?smap row = Inr r" if row: "row \<in> set ?rows" for row
    proof -
      obtain ivt prd wh where r: "row = (ivt, prd, wh)" by (cases row)
      with row have mem: "(ivt, prd, wh) \<in> set ?rows" by simp
      with bounded have b: "\<bar>i_quantity ivt\<bar> < 2 ^ 63"
        "\<bar>units_sold d company_id (p_id prd) avg_since\<bar> < 2 ^ 63" by auto
      from stockout_days_total [OF win b(2) b(1)] show ?thesis
        unfolding r by (intro alert_of_total) (simp add: avg_lookup [OF mem])
    qed
    then obtain alerts where loop: "alerts_loop cfg ?rmap ?amap ?smap ?rows [] = Inr alerts"
      using alerts_loop_total [of ?rows cfg ?rmap ?amap ?smap "[]"] by blast
    note res = run [OF loop]
    have "supplier a = None"
      if a: "a \<in> set alerts"
        and none: "\<forall>ps \<in> set (product_suppliers d). ps_product_id ps \<noteq> product_id a" for a
    proof -
      from res a obtain ivt prd wh where
        p: "alert_position a = row_position (ivt, prd, wh)" and
        s: "supplier a = supplier_info_of ?smap (p_id prd)"
        by (rule alert_origin)
      from p have "p_id prd = product_id a" by (simp add: alert_position_def row_position_def)
      with s no_links_no_supplier [OF none] show ?thesis by simp
    qed
    with res show ?thesis by blast
  qed
  from c1 c2 c3 show ?thesis by blast
qed

text \<open>
  Three runs: the store without inventory rows, the example store 61 days after its only
  sale, and the store without supplier links, where both alerts are emitted without
  supplier.
\<close>

theorem business_outcomes_are_not_errors_witness:
  "1 \<in> c_id ` set (companies idle_db)
   \<and> candidate_rows idle_db 1 = []
   \<and> low_stock_alerts default_config idle_db 63900864000000000 1 = Inr (AlertsBody [] 0, 200)
   \<and> 1 \<in> c_id ` set (companies example_db)
   \<and> days_before 63905270400000000 (SALES_ACTIVITY_WINDOW_DAYS default_config)
       = Inr 63900086400000000
   \<and> list_all (\<lambda>(ivt, prd, wh). units_sold example_db 1 (p_id prd) 63900086400000000 = 0)
        (candidate_rows example_db 1)
   \<and> low_stock_alerts default_config example_db 63905270400000000 1
       = Inr (AlertsBody [] 0, 200)
   \<and> 1 \<in> c_id ` set (companies no_supplier_db)
   \<and> days_before 63900864000000000 (SALES_AVG_WINDOW_DAYS default_config)
       = Inr 63898272000000000
   \<and> list_all (\<lambda>(ivt, prd, wh). \<bar>i_quantity ivt\<bar> < 2 ^ 63
         \<and> \<bar>units_sold no_supplier_db 1 (p_id prd) 63898272000000000\<bar> < 2 ^ 63)
        (candidate_rows no_supplier_db 1)
   \<and> list_all (\<lambda>ps. ps_product_id ps \<noteq> 1) (product_suppliers no_supplier_db)
   \<and> low_stock_alerts default_config no_supplier_db 63900864000000000 1
       = Inr (AlertsBody
           [example_alert_w1 \<lparr>supplier := None\<rparr>, example_alert_w2 \<lparr>supplier := None\<rparr>] 2, 200)"
proof -
  have c0: "1 \<in> c_id ` set (companies idle_db)" by (simp add: idle_db_def example_db_def)
  have c1: "1 \<in> c_id ` set (companies example_db)" by (simp add: example_db_def)
  have c2: "1 \<in> c_id ` set (companies no_supplier_db)"
    by (simp add: no_supplier_db_def example_db_def)
  have b: "list_all (\<lambda>(ivt, prd, wh). \<bar>i_quantity ivt\<bar> < 2 ^ 63
         \<and> \<bar>units_sold no_supplier_db 1 (p_id prd) 63898272000000000\<bar> < 2 ^ 63)
        (candidate_rows no_supplier_db 1)"
    by code_simp
  have l: "list_all (\<lambda>ps. ps_product_id ps \<noteq> 1) (product_suppliers no_supplier_db)"
    by (simp add: no_supplier_db_def)
  note idle = business_outcomes_are_not_errors
    [OF c0 example_since(1) example_since(2), THEN conjunct1, THEN mp, OF idle_run]
  note later = business_outcomes_are_not_errors
    [OF c1 later_since(1) later_since(2), THEN conjunct2, THEN conjunct1, THEN mp,
     OF later_rows [unfolded list_all_iff]]
  from business_outcomes_are_not_errors
    [OF c2 example_since(1) example_since(2), THEN conjunct2, THEN conjunct2, THEN mp,
     OF b [unfolded list_all_iff]]
  obtain alerts where
    r: "low_stock_alerts default_config no_supplier_db 63900864000000000 1
       = Inr (AlertsBody alerts (int (length alerts)), 200)" by blast
  with no_supplier_run have eq: "alerts = [example_alert_w1 \<lparr>supplier := None\<rparr>,
      example_alert_w2 \<lparr>supplier := None\<rparr>]" by simp
  from r [unfolded eq] have r': "low_stock_alerts default_config no_supplier_db 63900864000000000 1
       = Inr (AlertsBody
           [example_alert_w1 \<lparr>supplier := None\<rparr>, example_alert_w2 \<lparr>supplier := None\<rparr>] 2, 200)"
    by simp
  from c0 idle_run idle c1 later_since(2) later_rows later c2 example_since(1) b l r'
  show ?thesis by blast
qed

end
